theory Spec2Isabelle
  imports Complex_Main "HOL-Library.Sublist"
begin

section \<open>The visualization tutorial as a straight-line program\<close>

text \<open>
  The repository's source is one notebook, \<^verbatim>\<open>notebooks/tutorials/visualization.ipynb\<close>.
  Its code cells are a straight-line script: every statement is an assignment or a method
  call whose right-hand side calls into \<^verbatim>\<open>torch\<close>, \<^verbatim>\<open>diffdrr\<close> or \<^verbatim>\<open>pyvista\<close>.
  The model keeps the script's variables in a record, runs the statements in source order
  and stops at the first one that raises. The library calls are parameters of the model
  (the record \<open>libs\<close>): each is a function of its arguments that returns a value or an
  error, so a library that changes one of its arguments in place is outside the model.
  Floating-point numbers are idealised as reals. The \<^verbatim>\<open>import\<close> statements are not
  modelled: where one fails, no statement of the script runs.
\<close>

subsection \<open>Values\<close>

datatype device = Cuda | Cpu

datatype error = NameError string | ValueError string | LibraryError string

type_synonym vec3 = "real \<times> real \<times> real"

text \<open>The CT volume: a 3D grid of intensities, of which the script reads only \<^verbatim>\<open>.shape\<close>.\<close>

record volume =
  shape :: "nat \<times> nat \<times> nat"
  voxels :: "real list"

text \<open>A \<^verbatim>\<open>torch.tensor([[a, b, c]], device=device)\<close>: one row of three numbers and a device.\<close>

record tensor =
  row :: vec3
  on_device :: device

text \<open>One \<^verbatim>\<open>add_mesh\<close> call: the mesh and the keyword arguments the script passes.\<close>

record ('m, 't) actor =
  a_mesh :: 'm
  a_show_edges :: "bool option"
  a_line_width :: "real option"
  a_color :: "string option"
  a_texture :: "'t option"

text \<open>The plotting session: the meshes added so far, and whether axes and box are shown.\<close>

record ('m, 't) plotter_state =
  actors :: "('m, 't) actor list"
  axes :: bool
  bounding_box :: bool

record iframe =
  src :: string
  height :: nat
  width :: nat

subsection \<open>The libraries\<close>

text \<open>
  Modelled from the spec: the functions of the repository's own package \<^verbatim>\<open>diffdrr\<close>
  that the notebook calls (\<^verbatim>\<open>load_example_ct\<close>, \<^verbatim>\<open>DRR\<close>, \<^verbatim>\<open>convert\<close>,
  \<^verbatim>\<open>drr_to_mesh\<close>, \<^verbatim>\<open>img_to_mesh\<close>) are not part of the source at hand. Their
  signatures are those of the specification's list of interfaces: the volume loader
  "returns (volume grid, spacing vector)"; the renderer constructor "accepts volume,
  spacing, source-to-detector distance, output image height, pixel spacing"; the pose
  converter "accepts rotation values, translation values, a parameterization name, and an
  axis convention"; the image-to-mesh function "accepts renderer handle and pose; returns
  camera mesh, detector mesh, texture image, principal-ray geometry". What they compute is
  left open: each is a field of the record below, as are the calls into \<^verbatim>\<open>torch\<close> and
  \<^verbatim>\<open>pyvista\<close>. A call returns a result and leaves what it receives as it is; for the
  volume and its spacing this is the specification's "Immutable once loaded".

  The renderer \<open>'r\<close>, meshes \<open>'m\<close>, textures \<open>'t\<close> and poses \<open>'p\<close> are opaque to the
  script. \<open>to\<close> is the method \<^verbatim>\<open>.to(device)\<close> of the renderer; \<open>isosurface\<close> is the
  mesh extraction that \<^verbatim>\<open>drr_to_mesh\<close> delegates to; the \<open>raises_\<close> fields say whether a
  \<^verbatim>\<open>pyvista\<close> call raises; \<open>write_html\<close> is the serialisation of the session by
  \<^verbatim>\<open>export_html\<close>.
\<close>

record ('r, 'm, 't, 'p) libs =
  cuda_is_available :: bool
  load_example_ct :: "error + volume \<times> vec3"
  DRR :: "volume \<Rightarrow> vec3 \<Rightarrow> real \<Rightarrow> nat \<Rightarrow> real \<Rightarrow> error + 'r"
  to :: "'r \<Rightarrow> device \<Rightarrow> error + 'r"
  isosurface :: "'r \<Rightarrow> string \<Rightarrow> real \<Rightarrow> bool \<Rightarrow> error + 'm"
  convert :: "tensor \<Rightarrow> tensor \<Rightarrow> string \<Rightarrow> string \<Rightarrow> error + 'p"
  img_to_mesh :: "'r \<Rightarrow> 'p \<Rightarrow> error + 'm \<times> 'm \<times> 't \<times> 'm"
  raises_Plotter :: "error option"
  raises_add_mesh :: "('m, 't) plotter_state \<Rightarrow> ('m, 't) actor \<Rightarrow> error option"
  raises_add_axes :: "('m, 't) plotter_state \<Rightarrow> error option"
  raises_add_bounding_box :: "('m, 't) plotter_state \<Rightarrow> error option"
  write_html :: "('m, 't) plotter_state \<Rightarrow> error + string"

subsection \<open>The script's variables and the file system\<close>

text \<open>
  A variable that is not yet bound is \<open>None\<close>; reading it raises \<^verbatim>\<open>NameError\<close>.
  \<open>bxbybz\<close> holds the three variables \<^verbatim>\<open>bx, by, bz\<close>, which one tuple assignment binds.
  \<open>translations'\<close> is the variable \<^verbatim>\<open>translations\<close> (a reserved word here).
  \<open>files\<close> is the working directory, \<open>shown\<close> the value displayed by the last cell.
\<close>

record ('r, 'm, 't, 'p) state =
  device :: "device option"
  volume :: "volume option"
  spacing :: "vec3 option"
  bxbybz :: "vec3 option"
  focal_len :: "real option"
  drr :: "'r option"
  ct :: "'m option"
  rotations :: "tensor option"
  translations' :: "tensor option"
  pose :: "'p option"
  camera :: "'m option"
  detector :: "'m option"
  texture :: "'t option"
  principal_ray :: "'m option"
  plotter :: "('m, 't) plotter_state option"
  files :: "string \<rightharpoonup> string"
  shown :: "iframe option"

definition init :: "(string \<rightharpoonup> string) \<Rightarrow> ('r, 'm, 't, 'p) state" where
  "init fs = \<lparr> device = None, volume = None, spacing = None, bxbybz = None,
     focal_len = None, drr = None, ct = None, rotations = None, translations' = None,
     pose = None, camera = None, detector = None, texture = None, principal_ray = None,
     plotter = None, files = fs, shown = None \<rparr>"

definition var :: "string \<Rightarrow> 'a option \<Rightarrow> error + 'a" where
  "var x v = (case v of None \<Rightarrow> Inl (NameError x) | Some a \<Rightarrow> Inr a)"

definition and_then :: "error + 'a \<Rightarrow> ('a \<Rightarrow> error + 'b) \<Rightarrow> error + 'b" where
  "and_then r f = (case r of Inl e \<Rightarrow> Inl e | Inr a \<Rightarrow> f a)"

definition unless :: "error option \<Rightarrow> error + 'b \<Rightarrow> error + 'b" where
  "unless r k = (case r of Some e \<Rightarrow> Inl e | None \<Rightarrow> k)"


subsection \<open>The statements, in source order\<close>

type_synonym ('r, 'm, 't, 'p) stmt =
  "('r, 'm, 't, 'p) state \<Rightarrow> error + ('r, 'm, 't, 'p) state"

text \<open>Lines 73 and 81:
  \<^verbatim>\<open>device = torch.device("cuda" if torch.cuda.is_available() else "cpu")\<close>\<close>

definition select_device :: "('r, 'm, 't, 'p) libs \<Rightarrow> ('r, 'm, 't, 'p) stmt" where
  "select_device L s =
     Inr (s\<lparr>device := Some (if cuda_is_available L then Cuda else Cpu)\<rparr>)"

text \<open>Line 76: \<^verbatim>\<open>volume, spacing = load_example_ct()\<close>\<close>

definition load_volume :: "('r, 'm, 't, 'p) libs \<Rightarrow> ('r, 'm, 't, 'p) stmt" where
  "load_volume L s =
     and_then (load_example_ct L) (\<lambda>(v, sp).
     Inr (s\<lparr>volume := Some v, spacing := Some sp\<rparr>))"

text \<open>Line 77:
  \<^verbatim>\<open>bx, by, bz = torch.tensor(volume.shape) * torch.tensor(spacing) / 2\<close>\<close>

definition isocenter :: "nat \<times> nat \<times> nat \<Rightarrow> vec3 \<Rightarrow> vec3" where
  "isocenter shp sp =
     (case shp of (nx, ny, nz) \<Rightarrow> case sp of (sx, sy, sz) \<Rightarrow>
        (real nx * sx / 2, real ny * sy / 2, real nz * sz / 2))"

definition get_isocenter :: "('r, 'm, 't, 'p) stmt" where
  "get_isocenter s =
     and_then (var ''volume'' (volume s)) (\<lambda>v.
     and_then (var ''spacing'' (spacing s)) (\<lambda>sp.
     Inr (s\<lparr>bxbybz := Some (isocenter (shape v) sp)\<rparr>)))"

text \<open>Line 78: \<^verbatim>\<open>focal_len = 1020.0\<close>\<close>

definition set_focal_len :: "('r, 'm, 't, 'p) stmt" where
  "set_focal_len s = Inr (s\<lparr>focal_len := Some 1020\<rparr>)"

text \<open>Line 82:
  \<^verbatim>\<open>drr = DRR(volume, spacing, sdr=focal_len / 2, height=200, delx=2.0).to(device)\<close>\<close>

definition make_drr :: "('r, 'm, 't, 'p) libs \<Rightarrow> ('r, 'm, 't, 'p) stmt" where
  "make_drr L s =
     and_then (var ''volume'' (volume s)) (\<lambda>v.
     and_then (var ''spacing'' (spacing s)) (\<lambda>sp.
     and_then (var ''focal_len'' (focal_len s)) (\<lambda>f.
     and_then (DRR L v sp (f / 2) 200 2) (\<lambda>r.
     and_then (var ''device'' (device s)) (\<lambda>d.
     and_then (to L r d) (\<lambda>r'.
     Inr (s\<lparr>drr := Some r'\<rparr>)))))))"

text \<open>
  Modelled from the spec: the backends of \<^verbatim>\<open>diffdrr.visualization.drr_to_mesh\<close>, which
  is not part of the source at hand. The notebook names the two that are supported,
  \<^verbatim>\<open>marching_cubes\<close> and \<^verbatim>\<open>surface_nets\<close>.
\<close>

definition supported_backends :: "string list" where
  "supported_backends = [''marching_cubes'', ''surface_nets'']"

text \<open>
  Modelled from the spec: \<^verbatim>\<open>diffdrr.visualization.drr_to_mesh\<close>, which is not part of
  the source at hand. It "accepts renderer handle, backend name, intensity threshold,
  verbosity flag; returns a mesh"; the "mesh-extraction method name must be one of the
  renderer's supported backends", and an unsupported name "must fail immediately". For a
  supported name the function delegates to the isosurface extraction of the library.
\<close>

definition drr_to_mesh ::
  "('r, 'm, 't, 'p) libs \<Rightarrow> 'r \<Rightarrow> string \<Rightarrow> real \<Rightarrow> bool \<Rightarrow> error + 'm" where
  "drr_to_mesh L r method threshold verbose =
     (if method \<in> set supported_backends then isosurface L r method threshold verbose
      else Inl (ValueError method))"

text \<open>Line 93:
  \<^verbatim>\<open>ct = drr_to_mesh(drr, "surface_nets", threshold=1150, verbose=False)\<close>\<close>

definition extract_mesh :: "('r, 'm, 't, 'p) libs \<Rightarrow> string \<Rightarrow> ('r, 'm, 't, 'p) stmt" where
  "extract_mesh L method s =
     and_then (var ''drr'' (drr s)) (\<lambda>r.
     and_then (drr_to_mesh L r method 1150 False) (\<lambda>m.
     Inr (s\<lparr>ct := Some m\<rparr>)))"

text \<open>Line 96:
  \<^verbatim>\<open>rotations = torch.tensor([[torch.pi, 0.0, torch.pi / 2]], device=device)\<close>\<close>

definition make_rotations :: "('r, 'm, 't, 'p) stmt" where
  "make_rotations s =
     and_then (var ''device'' (device s)) (\<lambda>d.
     Inr (s\<lparr>rotations := Some \<lparr>row = (pi, 0, pi / 2), on_device = d\<rparr>\<rparr>))"

text \<open>Line 97:
  \<^verbatim>\<open>translations = torch.tensor([[bx - focal_len / 3, by, bz]], device=device)\<close>\<close>

definition make_translations :: "('r, 'm, 't, 'p) stmt" where
  "make_translations s =
     and_then (var ''bx'' (bxbybz s)) (\<lambda>(bx, b_y, bz).
     and_then (var ''focal_len'' (focal_len s)) (\<lambda>f.
     and_then (var ''device'' (device s)) (\<lambda>d.
     Inr (s\<lparr>translations' := Some \<lparr>row = (bx - f / 3, b_y, bz), on_device = d\<rparr>\<rparr>))))"

text \<open>Line 98: \<^verbatim>\<open>pose = convert(rotations, translations,
  parameterization="euler_angles", convention="ZYX")\<close>\<close>

definition convert_pose :: "('r, 'm, 't, 'p) libs \<Rightarrow> ('r, 'm, 't, 'p) stmt" where
  "convert_pose L s =
     and_then (var ''rotations'' (rotations s)) (\<lambda>r.
     and_then (var ''translations'' (translations' s)) (\<lambda>t.
     and_then (convert L r t ''euler_angles'' ''ZYX'') (\<lambda>p.
     Inr (s\<lparr>pose := Some p\<rparr>))))"

text \<open>Line 99: \<^verbatim>\<open>camera, detector, texture, principal_ray = img_to_mesh(drr, pose)\<close>\<close>

definition render_projection :: "('r, 'm, 't, 'p) libs \<Rightarrow> ('r, 'm, 't, 'p) stmt" where
  "render_projection L s =
     and_then (var ''drr'' (drr s)) (\<lambda>r.
     and_then (var ''pose'' (pose s)) (\<lambda>p.
     and_then (img_to_mesh L r p) (\<lambda>(c, d, t, pr).
     Inr (s\<lparr>camera := Some c, detector := Some d, texture := Some t,
            principal_ray := Some pr\<rparr>))))"

text \<open>Line 102: \<^verbatim>\<open>plotter = pyvista.Plotter()\<close>\<close>

definition new_plotter :: "('r, 'm, 't, 'p) libs \<Rightarrow> ('r, 'm, 't, 'p) stmt" where
  "new_plotter L s =
     unless (raises_Plotter L)
       (Inr (s\<lparr>plotter := Some \<lparr>actors = [], axes = False, bounding_box = False\<rparr>\<rparr>))"

text \<open>\<^verbatim>\<open>plotter.add_mesh(mesh, ...)\<close> appends to the session, which is changed in place.\<close>

definition add_mesh ::
  "('r, 'm, 't, 'p) libs \<Rightarrow> ('m, 't) plotter_state \<Rightarrow> ('m, 't) actor
     \<Rightarrow> error + ('m, 't) plotter_state" where
  "add_mesh L p a = unless (raises_add_mesh L p a) (Inr (p\<lparr>actors := actors p @ [a]\<rparr>))"

definition plain :: "'m \<Rightarrow> ('m, 't) actor" where
  "plain m = \<lparr>a_mesh = m, a_show_edges = None, a_line_width = None, a_color = None,
     a_texture = None\<rparr>"

text \<open>Line 103: \<^verbatim>\<open>plotter.add_mesh(ct)\<close>\<close>

definition add_ct :: "('r, 'm, 't, 'p) libs \<Rightarrow> ('r, 'm, 't, 'p) stmt" where
  "add_ct L s =
     and_then (var ''plotter'' (plotter s)) (\<lambda>p.
     and_then (var ''ct'' (ct s)) (\<lambda>m.
     and_then (add_mesh L p (plain m)) (\<lambda>p'.
     Inr (s\<lparr>plotter := Some p'\<rparr>))))"

text \<open>Line 104: \<^verbatim>\<open>plotter.add_mesh(camera, show_edges=True, line_width=1.5)\<close>\<close>

definition add_camera :: "('r, 'm, 't, 'p) libs \<Rightarrow> ('r, 'm, 't, 'p) stmt" where
  "add_camera L s =
     and_then (var ''plotter'' (plotter s)) (\<lambda>p.
     and_then (var ''camera'' (camera s)) (\<lambda>m.
     and_then (add_mesh L p ((plain m)\<lparr>a_show_edges := Some True, a_line_width := Some 1.5\<rparr>))
       (\<lambda>p'.
     Inr (s\<lparr>plotter := Some p'\<rparr>))))"

text \<open>Line 105: \<^verbatim>\<open>plotter.add_mesh(principal_ray, color="lime", line_width=3)\<close>\<close>

definition add_principal_ray :: "('r, 'm, 't, 'p) libs \<Rightarrow> ('r, 'm, 't, 'p) stmt" where
  "add_principal_ray L s =
     and_then (var ''plotter'' (plotter s)) (\<lambda>p.
     and_then (var ''principal_ray'' (principal_ray s)) (\<lambda>m.
     and_then (add_mesh L p ((plain m)\<lparr>a_color := Some ''lime'', a_line_width := Some 3\<rparr>))
       (\<lambda>p'.
     Inr (s\<lparr>plotter := Some p'\<rparr>))))"

text \<open>Line 106: \<^verbatim>\<open>plotter.add_mesh(detector, texture=texture)\<close>\<close>

definition add_detector :: "('r, 'm, 't, 'p) libs \<Rightarrow> ('r, 'm, 't, 'p) stmt" where
  "add_detector L s =
     and_then (var ''plotter'' (plotter s)) (\<lambda>p.
     and_then (var ''detector'' (detector s)) (\<lambda>m.
     and_then (var ''texture'' (texture s)) (\<lambda>t.
     and_then (add_mesh L p ((plain m)\<lparr>a_texture := Some t\<rparr>)) (\<lambda>p'.
     Inr (s\<lparr>plotter := Some p'\<rparr>)))))"

text \<open>Line 109: \<^verbatim>\<open>plotter.add_axes()\<close>\<close>

definition add_axes :: "('r, 'm, 't, 'p) libs \<Rightarrow> ('r, 'm, 't, 'p) stmt" where
  "add_axes L s =
     and_then (var ''plotter'' (plotter s)) (\<lambda>p.
     unless (raises_add_axes L p) (Inr (s\<lparr>plotter := Some (p\<lparr>axes := True\<rparr>)\<rparr>)))"

text \<open>Line 110: \<^verbatim>\<open>plotter.add_bounding_box()\<close>\<close>

definition add_bounding_box :: "('r, 'm, 't, 'p) libs \<Rightarrow> ('r, 'm, 't, 'p) stmt" where
  "add_bounding_box L s =
     and_then (var ''plotter'' (plotter s)) (\<lambda>p.
     unless (raises_add_bounding_box L p)
       (Inr (s\<lparr>plotter := Some (p\<lparr>bounding_box := True\<rparr>)\<rparr>)))"

text \<open>
  Line 114: \<^verbatim>\<open>plotter.export_html("render.html")\<close>. The file is written when the
  serialisation has succeeded; the script tests nothing about the file beforehand.
\<close>

definition export_html :: "('r, 'm, 't, 'p) libs \<Rightarrow> ('r, 'm, 't, 'p) stmt" where
  "export_html L s =
     and_then (var ''plotter'' (plotter s)) (\<lambda>p.
     and_then (write_html L p) (\<lambda>h.
     Inr (s\<lparr>files := (files s)(''render.html'' \<mapsto> h)\<rparr>)))"

text \<open>Line 149, the next cell: \<^verbatim>\<open>IFrame("render.html", height=500, width=749)\<close>\<close>

definition show_iframe :: "('r, 'm, 't, 'p) stmt" where
  "show_iframe s = Inr (s\<lparr>shown := Some \<lparr>src = ''render.html'', height = 500, width = 749\<rparr>\<rparr>)"

subsection \<open>The script and its runs\<close>

text \<open>Each statement carries a label; the trace of a run lists the statements that returned.\<close>

datatype event =
  SelectDevice | LoadCT | Isocenter | FocalLen | MakeDRR | DrrToMesh | Rotations
  | Translations | Convert | ImgToMesh | NewPlotter | AddMesh | AddAxes | AddBoundingBox
  | ExportHtml | ShowIFrame

type_synonym ('r, 'm, 't, 'p) program = "(event \<times> ('r, 'm, 't, 'p) stmt) list"

text \<open>The cell of lines 92 to 114, with the backend name of line 93 as a parameter.\<close>

definition scene_cell :: "('r, 'm, 't, 'p) libs \<Rightarrow> string \<Rightarrow> ('r, 'm, 't, 'p) program" where
  "scene_cell L method =
    [(DrrToMesh, extract_mesh L method),
     (Rotations, make_rotations),
     (Translations, make_translations),
     (Convert, convert_pose L),
     (ImgToMesh, render_projection L),
     (NewPlotter, new_plotter L),
     (AddMesh, add_ct L),
     (AddMesh, add_camera L),
     (AddMesh, add_principal_ray L),
     (AddMesh, add_detector L),
     (AddAxes, add_axes L),
     (AddBoundingBox, add_bounding_box L),
     (ExportHtml, export_html L)]"

text \<open>The cell of lines 73 to 82.\<close>

definition setup_cell :: "('r, 'm, 't, 'p) libs \<Rightarrow> ('r, 'm, 't, 'p) program" where
  "setup_cell L =
    [(SelectDevice, select_device L),
     (LoadCT, load_volume L),
     (Isocenter, get_isocenter),
     (FocalLen, set_focal_len),
     (SelectDevice, select_device L),
     (MakeDRR, make_drr L)]"

definition script_with_backend ::
  "('r, 'm, 't, 'p) libs \<Rightarrow> string \<Rightarrow> ('r, 'm, 't, 'p) program" where
  "script_with_backend L method = setup_cell L @ scene_cell L method"

definition script :: "('r, 'm, 't, 'p) libs \<Rightarrow> ('r, 'm, 't, 'p) program" where
  "script L = script_with_backend L ''surface_nets''"

definition notebook :: "('r, 'm, 't, 'p) libs \<Rightarrow> ('r, 'm, 't, 'p) program" where
  "notebook L = script L @ [(ShowIFrame, show_iframe)]"

text \<open>
  A run executes the statements in order and stops at the first that raises. It returns the
  trace, the state reached and the error, if any. A statement that raises changes nothing.
\<close>

fun exec :: "('r, 'm, 't, 'p) program \<Rightarrow> ('r, 'm, 't, 'p) state
    \<Rightarrow> event list \<times> ('r, 'm, 't, 'p) state \<times> error option" where
  "exec [] s = ([], s, None)"
| "exec ((ev, c) # cs) s =
     (case c s of
        Inl e \<Rightarrow> ([], s, Some e)
      | Inr s' \<Rightarrow> (case exec cs s' of (tr, s'', r) \<Rightarrow> (ev # tr, s'', r)))"

definition trace :: "event list \<times> ('r, 'm, 't, 'p) state \<times> error option \<Rightarrow> event list" where
  "trace x = fst x"

definition final ::
  "event list \<times> ('r, 'm, 't, 'p) state \<times> error option \<Rightarrow> ('r, 'm, 't, 'p) state" where
  "final x = fst (snd x)"

definition raised :: "event list \<times> ('r, 'm, 't, 'p) state \<times> error option \<Rightarrow> error option" where
  "raised x = snd (snd x)"

subsection \<open>Two sample environments\<close>

text \<open>An environment in which every library call succeeds, on a 2 x 3 x 4 volume.\<close>

definition sample_libs :: "(nat, nat, nat, nat) libs" where
  "sample_libs = \<lparr>
     cuda_is_available = False,
     load_example_ct = Inr (\<lparr>shape = (2, 3, 4), voxels = replicate 24 0\<rparr>, (1, 1, 2)),
     DRR = (\<lambda>v sp sdr h dx. Inr 0),
     to = (\<lambda>r d. Inr r),
     isosurface = (\<lambda>r method th vb. Inr 1),
     convert = (\<lambda>r t par con. Inr 0),
     img_to_mesh = (\<lambda>r p. Inr (2, 3, 0, 4)),
     raises_Plotter = None,
     raises_add_mesh = (\<lambda>p a. None),
     raises_add_axes = (\<lambda>p. None),
     raises_add_bounding_box = (\<lambda>p. None),
     write_html = (\<lambda>p. Inr (replicate (length (actors p)) CHR ''x'')) \<rparr>"

text \<open>The same environment, except that the isosurface extraction raises.\<close>

definition failing_libs :: "(nat, nat, nat, nat) libs" where
  "failing_libs = sample_libs\<lparr>isosurface := (\<lambda>r method th vb. Inl (LibraryError ''vtk''))\<rparr>"


subsection \<open>Notions used in the properties\<close>

text \<open>The labels of a program, in order.\<close>

definition labels :: "('r, 'm, 't, 'p) program \<Rightarrow> event list" where
  "labels P = map fst P"

text \<open>The device that lines 73 and 81 select.\<close>

definition dev :: "('r, 'm, 't, 'p) libs \<Rightarrow> device" where
  "dev L = (if cuda_is_available L then Cuda else Cpu)"

text \<open>A statement preserves a component of the state when no successful run of it changes it.\<close>

definition preserves ::
  "(('r, 'm, 't, 'p) state \<Rightarrow> 'a) \<Rightarrow> ('r, 'm, 't, 'p) stmt \<Rightarrow> bool" where
  "preserves f c = (\<forall>s s'. c s = Inr s' \<longrightarrow> f s' = f s)"

text \<open>The four \<^verbatim>\<open>add_mesh\<close> calls of lines 103 to 106, as the session records them.\<close>

definition scene :: "'m \<Rightarrow> 'm \<Rightarrow> 'm \<Rightarrow> 't \<Rightarrow> 'm \<Rightarrow> ('m, 't) actor list" where
  "scene m c d t pr =
     [plain m,
      (plain c)\<lparr>a_show_edges := Some True, a_line_width := Some 1.5\<rparr>,
      (plain pr)\<lparr>a_color := Some ''lime'', a_line_width := Some 3\<rparr>,
      (plain d)\<lparr>a_texture := Some t\<rparr>]"

text \<open>The row of \<^verbatim>\<open>translations\<close> as lines 77, 78 and 97 together compute it.\<close>

definition camera_translation :: "nat \<times> nat \<times> nat \<Rightarrow> vec3 \<Rightarrow> vec3" where
  "camera_translation shp sp =
     (case isocenter shp sp of (bx, b_y, bz) \<Rightarrow> (bx - 1020 / 3, b_y, bz))"

text \<open>
  The seven steps that the specification names. Device selection belongs to none of them;
  the statements of a step are adjacent, so the steps of a trace are read off by dropping
  adjacent repetitions.
\<close>

datatype step =
  CreateVolume | CreateRenderer | ExtractMesh | ComputePose | RenderProjection | BuildScene
  | Export

fun step_of :: "event \<Rightarrow> step option" where
  "step_of SelectDevice = None"
| "step_of LoadCT = Some CreateVolume"
| "step_of Isocenter = Some CreateVolume"
| "step_of FocalLen = Some CreateVolume"
| "step_of MakeDRR = Some CreateRenderer"
| "step_of DrrToMesh = Some ExtractMesh"
| "step_of Rotations = Some ComputePose"
| "step_of Translations = Some ComputePose"
| "step_of Convert = Some ComputePose"
| "step_of ImgToMesh = Some RenderProjection"
| "step_of NewPlotter = Some BuildScene"
| "step_of AddMesh = Some BuildScene"
| "step_of AddAxes = Some BuildScene"
| "step_of AddBoundingBox = Some BuildScene"
| "step_of ExportHtml = Some Export"
| "step_of ShowIFrame = None"

definition steps :: "event list \<Rightarrow> step list" where
  "steps tr = remdups_adj (List.map_filter step_of tr)"

definition pipeline_steps :: "step list" where
  "pipeline_steps =
     [CreateVolume, CreateRenderer, ExtractMesh, ComputePose, RenderProjection, BuildScene,
      Export]"

text \<open>The state after the first \<open>k\<close> statements of the script, or where the run stopped.\<close>

definition after ::
  "nat \<Rightarrow> ('r, 'm, 't, 'p) libs \<Rightarrow> (string \<rightharpoonup> string) \<Rightarrow> ('r, 'm, 't, 'p) state" where
  "after k L fs = final (exec (take k (script L)) (init fs))"

text \<open>
  What holds of the inputs of line 97 whenever they are bound: \<^verbatim>\<open>focal_len\<close> is 1020,
  the volume and spacing are the loaded ones, \<^verbatim>\<open>bx, by, bz\<close> is their isocenter, and
  \<^verbatim>\<open>translations\<close> has been computed from these.
\<close>

definition pose_inputs_ok :: "('r, 'm, 't, 'p) libs \<Rightarrow> ('r, 'm, 't, 'p) state \<Rightarrow> bool" where
  "pose_inputs_ok L s =
     ((case focal_len s of None \<Rightarrow> True | Some f \<Rightarrow> f = 1020) \<and>
      (case volume s of None \<Rightarrow> spacing s = None
       | Some v \<Rightarrow> (case spacing s of None \<Rightarrow> False
           | Some sp \<Rightarrow> load_example_ct L = Inr (v, sp) \<and>
               (case bxbybz s of None \<Rightarrow> True | Some b \<Rightarrow> b = isocenter (shape v) sp) \<and>
               (case translations' s of None \<Rightarrow> True
                | Some t \<Rightarrow> bxbybz s \<noteq> None \<and> focal_len s \<noteq> None \<and>
                    row t = camera_translation (shape v) sp))) \<and>
      (volume s = None \<longrightarrow> bxbybz s = None \<and> translations' s = None))"

text \<open>A second volume, half as many voxels along the first axis and twice the spacing.\<close>

definition coarse_libs :: "(nat, nat, nat, nat) libs" where
  "coarse_libs = sample_libs\<lparr>
     load_example_ct := Inr (\<lparr>shape = (1, 3, 4), voxels = replicate 12 0\<rparr>, (2, 1, 2))\<rparr>"

section \<open>Properties\<close>

subsection \<open>Evaluating a run in a sample environment\<close>

lemmas stmt_defs = select_device_def load_volume_def get_isocenter_def set_focal_len_def
  make_drr_def extract_mesh_def make_rotations_def make_translations_def convert_pose_def
  render_projection_def new_plotter_def add_ct_def add_camera_def add_principal_ray_def
  add_detector_def add_axes_def add_bounding_box_def export_html_def show_iframe_def
  add_mesh_def plain_def drr_to_mesh_def supported_backends_def isocenter_def
  var_def and_then_def unless_def

lemmas prog_defs = script_def script_with_backend_def setup_cell_def scene_cell_def

lemmas run_defs = prog_defs stmt_defs init_def trace_def final_def raised_def

subsection \<open>Runs of a program\<close>

lemma exec_Cons_ok:
  "exec ((ev, c) # cs) s = (tr, s', None) \<longleftrightarrow>
     (\<exists>s1 tr1. c s = Inr s1 \<and> exec cs s1 = (tr1, s', None) \<and> tr = ev # tr1)"
  by (auto split: sum.splits prod.splits)

lemma exec_Nil_ok: "exec [] s = (tr, s', None) \<longleftrightarrow> tr = [] \<and> s' = s"
  by auto

lemma exec_append:
  "exec (A @ B) s =
     (case exec A s of
        (tr, s1, None) \<Rightarrow> (case exec B s1 of (tr2, s2, r) \<Rightarrow> (tr @ tr2, s2, r))
      | (tr, s1, Some e) \<Rightarrow> (tr, s1, Some e))"
proof (induction A arbitrary: s)
  case Nil
  show ?case by (simp split: prod.splits)
next
  case (Cons a A)
  obtain ev c where a: "a = (ev, c)" by (cases a)
  show ?case
  proof (cases "c s")
    case (Inl e)
    then show ?thesis by (simp add: a)
  next
    case (Inr s1)
    then show ?thesis
      by (simp add: a Cons.IH split: prod.splits option.splits)
  qed
qed

lemma exec_append_ok:
  "exec (A @ B) s = (tr, s', None) \<longleftrightarrow>
     (\<exists>tr1 s1 tr2. exec A s = (tr1, s1, None) \<and> exec B s1 = (tr2, s', None)
        \<and> tr = tr1 @ tr2)"
  by (auto simp: exec_append split: prod.splits option.splits)

lemma exec_take:
  assumes "i \<le> j"
  shows "exec (take j P) s =
     (case exec (take i P) s of
        (tr, s1, None) \<Rightarrow>
          (case exec (take (j - i) (drop i P)) s1 of (tr2, s2, r) \<Rightarrow> (tr @ tr2, s2, r))
      | (tr, s1, Some e) \<Rightarrow> (tr, s1, Some e))"
proof -
  have "take j P = take i P @ take (j - i) (drop i P)"
    using assms take_add [of i "j - i" P] by simp
  then show ?thesis
    by (simp only: exec_append)
qed

lemma trace_prefix: "prefix (trace (exec P s)) (labels P)"
proof (induction P arbitrary: s)
  case Nil
  show ?case by (simp add: trace_def labels_def)
next
  case (Cons a P)
  obtain ev c where a: "a = (ev, c)" by (cases a)
  show ?case
  proof (cases "c s")
    case (Inl e)
    then show ?thesis by (simp add: a trace_def)
  next
    case (Inr s1)
    obtain tr1 s2 r where E: "exec P s1 = (tr1, s2, r)"
      by (cases "exec P s1")
    with Cons.IH [of s1] Inr show ?thesis
      by (simp add: a trace_def labels_def)
  qed
qed

lemma trace_ok: "raised (exec P s) = None \<Longrightarrow> trace (exec P s) = labels P"
proof (induction P arbitrary: s)
  case Nil
  show ?case by (simp add: trace_def labels_def)
next
  case (Cons a P)
  obtain ev c where a: "a = (ev, c)" by (cases a)
  show ?case
  proof (cases "c s")
    case (Inl e)
    with Cons.prems show ?thesis by (simp add: a raised_def)
  next
    case (Inr s1)
    obtain tr1 s2 r where E: "exec P s1 = (tr1, s2, r)"
      by (cases "exec P s1")
    with Inr Cons.prems have "raised (exec P s1) = None"
      by (simp add: a raised_def)
    from Cons.IH [OF this] Inr E show ?thesis
      by (simp add: a trace_def labels_def)
  qed
qed

lemma trace_raised: "raised (exec P s) \<noteq> None \<Longrightarrow> length (trace (exec P s)) < length P"
proof (induction P arbitrary: s)
  case Nil
  then show ?case by (simp add: raised_def)
next
  case (Cons a P)
  obtain ev c where a: "a = (ev, c)" by (cases a)
  show ?case
  proof (cases "c s")
    case (Inl e)
    then show ?thesis by (simp add: a trace_def)
  next
    case (Inr s1)
    obtain tr1 s2 r where E: "exec P s1 = (tr1, s2, r)"
      by (cases "exec P s1")
    with Inr Cons.prems have "raised (exec P s1) \<noteq> None"
      by (simp add: a raised_def)
    from Cons.IH [OF this] Inr E show ?thesis
      by (simp add: a trace_def)
  qed
qed

lemma exec_preserves:
  assumes "\<And>ev c. (ev, c) \<in> set P \<Longrightarrow> preserves f c"
  shows "f (final (exec P s)) = f s"
  using assms
proof (induction P arbitrary: s)
  case Nil
  show ?case by (simp add: final_def)
next
  case (Cons a P)
  obtain ev c where a: "a = (ev, c)" by (cases a)
  show ?case
  proof (cases "c s")
    case (Inl e)
    then show ?thesis by (simp add: a final_def)
  next
    case (Inr s1)
    have "preserves f c"
      using Cons.prems [of ev c] by (simp add: a)
    with Inr have s1: "f s1 = f s"
      by (simp add: preserves_def)
    obtain tr1 s2 r where E: "exec P s1 = (tr1, s2, r)"
      by (cases "exec P s1")
    have "\<And>ev c. (ev, c) \<in> set P \<Longrightarrow> preserves f c"
      using Cons.prems by auto
    then have "f (final (exec P s1)) = f s1"
      by (rule Cons.IH)
    with s1 Inr E show ?thesis
      by (simp add: a final_def)
  qed
qed


subsection \<open>When a statement returns, and what it changes\<close>

lemmas monad_defs = var_def and_then_def unless_def

lemma select_device_ok:
  "select_device L s = Inr s' \<longleftrightarrow> s' = s\<lparr>device := Some (dev L)\<rparr>"
  by (auto simp: select_device_def dev_def)

lemma load_volume_ok:
  "load_volume L s = Inr s' \<longleftrightarrow>
     (\<exists>v sp. load_example_ct L = Inr (v, sp) \<and> s' = s\<lparr>volume := Some v, spacing := Some sp\<rparr>)"
  by (auto simp: load_volume_def monad_defs split: sum.splits)

lemma get_isocenter_ok:
  "get_isocenter s = Inr s' \<longleftrightarrow>
     (\<exists>v sp. volume s = Some v \<and> spacing s = Some sp \<and>
        s' = s\<lparr>bxbybz := Some (isocenter (shape v) sp)\<rparr>)"
  by (auto simp: get_isocenter_def monad_defs split: option.splits)

lemma set_focal_len_ok:
  "set_focal_len s = Inr s' \<longleftrightarrow> s' = s\<lparr>focal_len := Some 1020\<rparr>"
  by (auto simp: set_focal_len_def)

lemma make_drr_ok:
  "make_drr L s = Inr s' \<longleftrightarrow>
     (\<exists>v sp f d r r'. volume s = Some v \<and> spacing s = Some sp \<and> focal_len s = Some f \<and>
        device s = Some d \<and> DRR L v sp (f / 2) 200 2 = Inr r \<and> to L r d = Inr r' \<and>
        s' = s\<lparr>drr := Some r'\<rparr>)"
  by (auto simp: make_drr_def monad_defs split: option.splits sum.splits)

lemma extract_mesh_ok:
  "extract_mesh L method s = Inr s' \<longleftrightarrow>
     (\<exists>r m. drr s = Some r \<and> drr_to_mesh L r method 1150 False = Inr m \<and>
        s' = s\<lparr>ct := Some m\<rparr>)"
  by (auto simp: extract_mesh_def monad_defs split: option.splits sum.splits)

lemma make_rotations_ok:
  "make_rotations s = Inr s' \<longleftrightarrow>
     (\<exists>d. device s = Some d \<and>
        s' = s\<lparr>rotations := Some \<lparr>row = (pi, 0, pi / 2), on_device = d\<rparr>\<rparr>)"
  by (auto simp: make_rotations_def monad_defs split: option.splits)

lemma make_translations_ok:
  "make_translations s = Inr s' \<longleftrightarrow>
     (\<exists>b f d. bxbybz s = Some b \<and> focal_len s = Some f \<and> device s = Some d \<and>
        s' = s\<lparr>translations' := Some \<lparr>row = (case b of (bx, b_y, bz) \<Rightarrow> (bx - f / 3, b_y, bz)),
                 on_device = d\<rparr>\<rparr>)"
  by (auto simp: make_translations_def monad_defs split: option.splits prod.splits)

lemma convert_pose_ok:
  "convert_pose L s = Inr s' \<longleftrightarrow>
     (\<exists>r t p. rotations s = Some r \<and> translations' s = Some t \<and>
        convert L r t ''euler_angles'' ''ZYX'' = Inr p \<and> s' = s\<lparr>pose := Some p\<rparr>)"
  by (auto simp: convert_pose_def monad_defs split: option.splits sum.splits)

lemma render_projection_ok:
  "render_projection L s = Inr s' \<longleftrightarrow>
     (\<exists>r p c d t pr. drr s = Some r \<and> pose s = Some p \<and>
        img_to_mesh L r p = Inr (c, d, t, pr) \<and>
        s' = s\<lparr>camera := Some c, detector := Some d, texture := Some t,
               principal_ray := Some pr\<rparr>)"
  by (auto simp: render_projection_def monad_defs split: option.splits sum.splits)

lemma new_plotter_ok:
  "new_plotter L s = Inr s' \<longleftrightarrow>
     (raises_Plotter L = None \<and>
        s' = s\<lparr>plotter := Some \<lparr>actors = [], axes = False, bounding_box = False\<rparr>\<rparr>)"
  by (auto simp: new_plotter_def monad_defs split: option.splits)

lemma add_mesh_ok:
  "add_mesh L p a = Inr p' \<longleftrightarrow>
     (raises_add_mesh L p a = None \<and> p' = p\<lparr>actors := actors p @ [a]\<rparr>)"
  by (auto simp: add_mesh_def monad_defs split: option.splits)

lemma add_ct_ok:
  "add_ct L s = Inr s' \<longleftrightarrow>
     (\<exists>p m p'. plotter s = Some p \<and> ct s = Some m \<and> add_mesh L p (plain m) = Inr p' \<and>
        s' = s\<lparr>plotter := Some p'\<rparr>)"
  by (auto simp: add_ct_def monad_defs split: option.splits sum.splits)

lemma add_camera_ok:
  "add_camera L s = Inr s' \<longleftrightarrow>
     (\<exists>p m p'. plotter s = Some p \<and> camera s = Some m \<and>
        add_mesh L p ((plain m)\<lparr>a_show_edges := Some True, a_line_width := Some 1.5\<rparr>) = Inr p' \<and>
        s' = s\<lparr>plotter := Some p'\<rparr>)"
  by (auto simp: add_camera_def monad_defs split: option.splits sum.splits)

lemma add_principal_ray_ok:
  "add_principal_ray L s = Inr s' \<longleftrightarrow>
     (\<exists>p m p'. plotter s = Some p \<and> principal_ray s = Some m \<and>
        add_mesh L p ((plain m)\<lparr>a_color := Some ''lime'', a_line_width := Some 3\<rparr>) = Inr p' \<and>
        s' = s\<lparr>plotter := Some p'\<rparr>)"
  by (auto simp: add_principal_ray_def monad_defs split: option.splits sum.splits)

lemma add_detector_ok:
  "add_detector L s = Inr s' \<longleftrightarrow>
     (\<exists>p m t p'. plotter s = Some p \<and> detector s = Some m \<and> texture s = Some t \<and>
        add_mesh L p ((plain m)\<lparr>a_texture := Some t\<rparr>) = Inr p' \<and>
        s' = s\<lparr>plotter := Some p'\<rparr>)"
  by (auto simp: add_detector_def monad_defs split: option.splits sum.splits)

lemma add_axes_ok:
  "add_axes L s = Inr s' \<longleftrightarrow>
     (\<exists>p. plotter s = Some p \<and> raises_add_axes L p = None \<and>
        s' = s\<lparr>plotter := Some (p\<lparr>axes := True\<rparr>)\<rparr>)"
  by (auto simp: add_axes_def monad_defs split: option.splits)

lemma add_bounding_box_ok:
  "add_bounding_box L s = Inr s' \<longleftrightarrow>
     (\<exists>p. plotter s = Some p \<and> raises_add_bounding_box L p = None \<and>
        s' = s\<lparr>plotter := Some (p\<lparr>bounding_box := True\<rparr>)\<rparr>)"
  by (auto simp: add_bounding_box_def monad_defs split: option.splits)

lemma export_html_ok:
  "export_html L s = Inr s' \<longleftrightarrow>
     (\<exists>p h. plotter s = Some p \<and> write_html L p = Inr h \<and>
        s' = s\<lparr>files := (files s)(''render.html'' \<mapsto> h)\<rparr>)"
  by (auto simp: export_html_def monad_defs split: option.splits sum.splits)

lemma show_iframe_ok:
  "show_iframe s = Inr s' \<longleftrightarrow>
     s' = s\<lparr>shown := Some \<lparr>src = ''render.html'', height = 500, width = 749\<rparr>\<rparr>"
  by (auto simp: show_iframe_def)


lemmas stmt_ok = select_device_ok load_volume_ok get_isocenter_ok set_focal_len_ok make_drr_ok
  extract_mesh_ok make_rotations_ok make_translations_ok convert_pose_ok render_projection_ok
  new_plotter_ok add_ct_ok add_camera_ok add_principal_ray_ok add_detector_ok add_axes_ok
  add_bounding_box_ok export_html_ok show_iframe_ok


subsection \<open>The runs of the script that raise nothing\<close>

lemma script_ok:
  "exec (script_with_backend L method) (init fs) = (tr, s, None) \<longleftrightarrow>
    (\<exists>v sp r r' m p c d t pr p1 p2 p3 p4 h.
       load_example_ct L = Inr (v, sp) \<and> DRR L v sp 510 200 2 = Inr r \<and>
       to L r (dev L) = Inr r' \<and>
       drr_to_mesh L r' method 1150 False = Inr m \<and>
       convert L \<lparr>row = (pi, 0, pi / 2), on_device = dev L\<rparr>
         \<lparr>row = camera_translation (shape v) sp, on_device = dev L\<rparr>
         ''euler_angles'' ''ZYX'' = Inr p \<and>
       img_to_mesh L r' p = Inr (c, d, t, pr) \<and>
       raises_Plotter L = None \<and>
       add_mesh L \<lparr>actors = [], axes = False, bounding_box = False\<rparr> (scene m c d t pr ! 0) = Inr p1 \<and>
       add_mesh L p1 (scene m c d t pr ! 1) = Inr p2 \<and>
       add_mesh L p2 (scene m c d t pr ! 2) = Inr p3 \<and>
       add_mesh L p3 (scene m c d t pr ! 3) = Inr p4 \<and>
       raises_add_axes L p4 = None \<and>
       raises_add_bounding_box L (p4\<lparr>axes := True\<rparr>) = None \<and>
       write_html L (p4\<lparr>axes := True, bounding_box := True\<rparr>) = Inr h \<and>
       tr = labels (script_with_backend L method) \<and>
       s = (init fs)\<lparr>device := Some (dev L), volume := Some v, spacing := Some sp,
             bxbybz := Some (isocenter (shape v) sp), focal_len := Some 1020,
             drr := Some r', ct := Some m,
             rotations := Some \<lparr>row = (pi, 0, pi / 2), on_device = dev L\<rparr>,
             translations' := Some \<lparr>row = camera_translation (shape v) sp, on_device = dev L\<rparr>,
             pose := Some p, camera := Some c, detector := Some d, texture := Some t,
             principal_ray := Some pr,
             plotter := Some (p4\<lparr>axes := True, bounding_box := True\<rparr>),
             files := fs(''render.html'' \<mapsto> h)\<rparr>)"
  by (auto simp add: script_with_backend_def setup_cell_def scene_cell_def labels_def exec_Cons_ok exec_Nil_ok stmt_ok scene_def init_def camera_translation_def
       simp del: exec.simps split_paired_Ex)



subsection \<open>Which statements write which variable\<close>

lemma frame:
  assumes "(ev, c) \<in> set (script_with_backend L method)"
  shows "ev \<noteq> SelectDevice \<Longrightarrow> preserves device c"
    and "ev \<noteq> LoadCT \<Longrightarrow> preserves volume c"
    and "ev \<noteq> LoadCT \<Longrightarrow> preserves spacing c"
    and "ev \<noteq> Isocenter \<Longrightarrow> preserves bxbybz c"
    and "ev \<noteq> FocalLen \<Longrightarrow> preserves focal_len c"
    and "ev \<noteq> MakeDRR \<Longrightarrow> preserves drr c"
    and "ev \<noteq> DrrToMesh \<Longrightarrow> preserves ct c"
    and "ev \<noteq> Rotations \<Longrightarrow> preserves rotations c"
    and "ev \<noteq> Translations \<Longrightarrow> preserves translations' c"
    and "ev \<noteq> Convert \<Longrightarrow> preserves pose c"
    and "ev \<noteq> ImgToMesh \<Longrightarrow> preserves camera c"
    and "ev \<noteq> ImgToMesh \<Longrightarrow> preserves detector c"
    and "ev \<noteq> ImgToMesh \<Longrightarrow> preserves texture c"
    and "ev \<noteq> ImgToMesh \<Longrightarrow> preserves principal_ray c"
    and "ev \<notin> {NewPlotter, AddMesh, AddAxes, AddBoundingBox} \<Longrightarrow> preserves plotter c"
    and "ev \<noteq> ExportHtml \<Longrightarrow> preserves files c"
    and "preserves shown c"
  using assms by (auto simp: prog_defs preserves_def stmt_ok)

lemma exec_invariant:
  assumes step: "\<And>ev c s s'. (ev, c) \<in> set P \<Longrightarrow> c s = Inr s' \<Longrightarrow> I s \<Longrightarrow> I s'"
    and "I s"
  shows "I (final (exec P s))"
  using assms
proof (induction P arbitrary: s)
  case Nil
  then show ?case by (simp add: final_def)
next
  case (Cons a P)
  obtain ev c where a: "a = (ev, c)" by (cases a)
  show ?case
  proof (cases "c s")
    case (Inl e)
    with Cons.prems(2) show ?thesis by (simp add: a final_def)
  next
    case (Inr s1)
    obtain tr1 s2 r where E: "exec P s1 = (tr1, s2, r)"
      by (cases "exec P s1")
    have s1: "I s1"
      using Cons.prems(1) [of ev c s s1] Inr Cons.prems(2) by (simp add: a)
    have "\<And>ev c s s'. (ev, c) \<in> set P \<Longrightarrow> c s = Inr s' \<Longrightarrow> I s \<Longrightarrow> I s'"
      using Cons.prems(1) by auto
    then have "I (final (exec P s1))"
      using s1 by (rule Cons.IH)
    with Inr E show ?thesis
      by (simp add: a final_def)
  qed
qed

lemma label_of_member: "(ev, c) \<in> set P \<Longrightarrow> ev \<in> set (labels P)"
  by (auto simp: labels_def intro: rev_image_eqI)

lemma exec_preserves_unless:
  assumes "\<And>ev c. (ev, c) \<in> set P \<Longrightarrow> ev \<notin> W \<Longrightarrow> preserves f c"
    and "set (labels P) \<inter> W = {}"
  shows "f (final (exec P s)) = f s"
proof (rule exec_preserves)
  fix ev c
  assume m: "(ev, c) \<in> set P"
  then have "ev \<notin> W"
    using assms(2) label_of_member [OF m] by auto
  with m show "preserves f c" by (rule assms(1))
qed

lemma final_take:
  assumes "i \<le> j"
  shows "final (exec (take j P) s) = final (exec (take i P) s) \<or>
     final (exec (take j P) s) =
       final (exec (take (j - i) (drop i P)) (final (exec (take i P) s)))"
proof -
  obtain tr s1 r where E: "exec (take i P) s = (tr, s1, r)"
    by (cases "exec (take i P) s")
  obtain tr2 s2 r2 where E2: "exec (take (j - i) (drop i P)) s1 = (tr2, s2, r2)"
    by (cases "exec (take (j - i) (drop i P)) s1")
  show ?thesis
    using exec_take [OF assms, of P s] E E2
    by (cases r) (simp_all add: final_def)
qed

lemma written_once:
  assumes frame: "\<And>ev c. (ev, c) \<in> set P \<Longrightarrow> ev \<noteq> w \<Longrightarrow> preserves f c"
    and once: "count_list (labels P) w \<le> 1"
    and unbound: "f s0 = None"
    and le: "i \<le> j"
    and bound: "f (final (exec (take i P) s0)) = Some x"
  shows "f (final (exec (take j P) s0)) = Some x"
proof -
  have in_i: "w \<in> set (labels (take i P))"
  proof (rule ccontr)
    assume "w \<notin> set (labels (take i P))"
    then have "f (final (exec (take i P) s0)) = f s0"
      by (intro exec_preserves_unless [where W = "{w}"]) (auto dest: in_set_takeD intro: frame)
    with unbound bound show False by simp
  qed
  have "labels P = labels (take i P) @ labels (drop i P)"
    by (simp add: labels_def flip: map_append)
  then have "count_list (labels P) w =
      count_list (labels (take i P)) w + count_list (labels (drop i P)) w"
    by simp
  moreover have "count_list (labels (take i P)) w \<noteq> 0"
    using in_i by (simp add: count_list_0_iff)
  ultimately have "count_list (labels (drop i P)) w = 0"
    using once by simp
  then have "w \<notin> set (labels (drop i P))"
    by (simp add: count_list_0_iff)
  then have out: "w \<notin> set (labels (take (j - i) (drop i P)))"
    by (auto simp: labels_def dest: in_set_takeD)
  have "f (final (exec (take (j - i) (drop i P)) s1)) = f s1" for s1
    using out
    by (intro exec_preserves_unless [where W = "{w}"])
       (auto dest!: in_set_takeD in_set_dropD intro: frame)
  with final_take [OF le, of P s0] bound show ?thesis
    by auto
qed


subsection \<open>The order of the steps\<close>

lemma labels_script:
  "labels (script_with_backend L method) =
     [SelectDevice, LoadCT, Isocenter, FocalLen, SelectDevice, MakeDRR, DrrToMesh, Rotations,
      Translations, Convert, ImgToMesh, NewPlotter, AddMesh, AddMesh, AddMesh, AddMesh,
      AddAxes, AddBoundingBox, ExportHtml]"
  by (simp add: labels_def prog_defs)

lemma steps_of_prefix:
  assumes "prefix tr (labels (script_with_backend L method))"
  shows "prefix (steps tr) pipeline_steps"
    and "steps tr = pipeline_steps \<longleftrightarrow> tr = labels (script_with_backend L method)"
  using assms unfolding labels_script
  by (auto simp: prefix_Cons steps_def pipeline_steps_def List.map_filter_simps)

text \<open>
  C5, as amended. The statements that a run of the script performs are an initial part of
  one fixed list, whatever the environment: there is one path, without branching between
  statements, iteration or retries. So every run performs an initial part of the sequence
  create-volume, create-renderer, extract-mesh, compute-pose, render-projection,
  build-scene, export, in that order and without repetition; it performs the whole
  sequence exactly when no statement raises. A run in which a call raises stops there.
\<close>

theorem steps_in_order:
  "prefix (trace (exec (script L) (init fs)))
     [SelectDevice, LoadCT, Isocenter, FocalLen, SelectDevice, MakeDRR, DrrToMesh, Rotations,
      Translations, Convert, ImgToMesh, NewPlotter, AddMesh, AddMesh, AddMesh, AddMesh,
      AddAxes, AddBoundingBox, ExportHtml] \<and>
   prefix (steps (trace (exec (script L) (init fs)))) pipeline_steps \<and>
   (raised (exec (script L) (init fs)) = None \<longleftrightarrow>
      steps (trace (exec (script L) (init fs))) = pipeline_steps)"
proof -
  let ?R = "exec (script L) (init fs)"
  have pre: "prefix (trace ?R) (labels (script_with_backend L ''surface_nets''))"
    using trace_prefix [of "script L" "init fs"] by (simp add: script_def)
  have "raised ?R = None \<longleftrightarrow> trace ?R = labels (script L)"
  proof
    assume "raised ?R = None"
    then show "trace ?R = labels (script L)" by (rule trace_ok)
  next
    assume full: "trace ?R = labels (script L)"
    show "raised ?R = None"
    proof (rule ccontr)
      assume "raised ?R \<noteq> None"
      then have "length (trace ?R) < length (script L)" by (rule trace_raised)
      with full show False by (simp add: labels_def)
    qed
  qed
  with steps_of_prefix [OF pre] pre show ?thesis
    by (simp add: script_def labels_script)
qed

theorem steps_in_order_witness:
  "raised (exec (script sample_libs) (init Map.empty)) = None \<and>
   steps (trace (exec (script sample_libs) (init Map.empty))) = pipeline_steps"
proof -
  have "raised (exec (script sample_libs) (init Map.empty)) = None"
    by (simp add: run_defs sample_libs_def)
  with steps_in_order [of sample_libs Map.empty] show ?thesis
    by simp
qed

text \<open>
  Where the isosurface extraction raises, the run ends after create-renderer: not every
  run performs the seven steps.
\<close>

theorem steps_stop_at_raise:
  "steps (trace (exec (script failing_libs) (init Map.empty))) \<noteq> pipeline_steps"
  by (simp add: run_defs sample_libs_def failing_libs_def steps_def pipeline_steps_def
        List.map_filter_simps)


subsection \<open>The volume is not changed; the plotting session is\<close>

lemma labels_once:
  "w \<notin> {SelectDevice, AddMesh} \<Longrightarrow> count_list (labels (script_with_backend L method)) w \<le> 1"
  by (auto simp: labels_script)

lemma init_unbound:
  "volume (init fs) = None" "spacing (init fs) = None" "bxbybz (init fs) = None"
  "focal_len (init fs) = None" "drr (init fs) = None" "ct (init fs) = None"
  "rotations (init fs) = None" "translations' (init fs) = None" "pose (init fs) = None"
  "camera (init fs) = None" "detector (init fs) = None" "texture (init fs) = None"
  "principal_ray (init fs) = None" "device (init fs) = None" "plotter (init fs) = None"
  "shown (init fs) = None" "files (init fs) = fs"
  by (simp_all add: init_def)

lemma once_bound:
  assumes fr: "\<And>ev c. (ev, c) \<in> set (script L) \<Longrightarrow> ev \<noteq> w \<Longrightarrow> preserves f c"
    and w: "w \<notin> {SelectDevice, AddMesh}"
    and "f (init fs) = None" "i \<le> j" "f (after i L fs) \<noteq> None"
  shows "f (after j L fs) = f (after i L fs)"
proof -
  obtain x where "f (after i L fs) = Some x"
    using assms(5) by auto
  moreover have "count_list (labels (script L)) w \<le> 1"
    unfolding script_def using w by (rule labels_once)
  ultimately show ?thesis
    using written_once [of "script L" w f "init fs" i j x] assms(3,4) fr
    by (simp add: after_def)
qed

lemma prefix_run_ok:
  assumes "raised (exec (take (Suc k) P) s) = None"
  shows "raised (exec (take k P) s) = None"
proof -
  obtain tr s1 r where E: "exec (take k P) s = (tr, s1, r)"
    by (cases "exec (take k P) s")
  have "k \<le> Suc k"
    by simp
  from exec_take [OF this, of P s] E assms show ?thesis
    by (cases r) (simp_all add: raised_def split: prod.splits)
qed

lemma session_at:
  assumes ok: "raised (exec (take n (script L)) (init fs)) = None"
    and n: "12 \<le> n" "n \<le> 18"
  shows "\<exists>p. plotter (after n L fs) = Some p \<and> length (actors p) = min (n - 12) 4 \<and>
    axes p = (17 \<le> n) \<and> bounding_box p = (18 \<le> n)"
proof -
  obtain tr s where E: "exec (take n (script L)) (init fs) = (tr, s, None)"
    using ok by (cases "exec (take n (script L)) (init fs)") (auto simp: raised_def)
  from n have "n = 12 \<or> n = 13 \<or> n = 14 \<or> n = 15 \<or> n = 16 \<or> n = 17 \<or> n = 18"
    by arith
  then have "\<exists>p. plotter s = Some p \<and> length (actors p) = min (n - 12) 4 \<and>
      axes p = (17 \<le> n) \<and> bounding_box p = (18 \<le> n)"
    using E
    by (elim disjE)
      (auto simp add: prog_defs exec_Cons_ok exec_Nil_ok stmt_ok add_mesh_ok
        simp del: exec.simps split_paired_Ex)
  then show ?thesis
    by (simp add: after_def final_def E)
qed


lemma loaded:
  assumes "raised (exec (take 2 (script L)) (init fs)) = None"
  shows "\<exists>v sp. load_example_ct L = Inr (v, sp) \<and> volume (after 2 L fs) = Some v \<and>
    spacing (after 2 L fs) = Some sp"
proof -
  obtain tr s where E: "exec (take 2 (script L)) (init fs) = (tr, s, None)"
    using assms by (cases "exec (take 2 (script L)) (init fs)") (auto simp: raised_def)
  then have "\<exists>v sp. load_example_ct L = Inr (v, sp) \<and> volume s = Some v \<and> spacing s = Some sp"
    by (auto simp add: prog_defs exec_Cons_ok exec_Nil_ok stmt_ok
        simp del: exec.simps split_paired_Ex)
  then show ?thesis
    by (simp add: after_def final_def E)
qed

text \<open>
  C7, as amended. The volume and its spacing vector are immutable once loaded: at every
  point of a run after the load step they are what the loader returned, and once bound they
  are the same at every later point, through renderer construction, mesh extraction,
  rendering, scene building and export. (That a library call leaves the volume and the
  spacing it receives as they are is taken from the specification.) Not every object of
  the script is written once and then only read: each of the six calls of lines 103 to 110
  that returns changes the plotting session that line 102 created.
\<close>

theorem volume_fixed_session_changed:
  "(i \<le> j \<and> volume (after i L fs) \<noteq> None \<longrightarrow>
      volume (after j L fs) = volume (after i L fs)) \<and>
   (i \<le> j \<and> spacing (after i L fs) \<noteq> None \<longrightarrow>
      spacing (after j L fs) = spacing (after i L fs)) \<and>
   (2 \<le> j \<and> raised (exec (take 2 (script L)) (init fs)) = None \<longrightarrow>
      (\<exists>v sp. load_example_ct L = Inr (v, sp) \<and> volume (after j L fs) = Some v \<and>
         spacing (after j L fs) = Some sp)) \<and>
   (12 \<le> k \<and> k < 18 \<and> raised (exec (take (Suc k) (script L)) (init fs)) = None \<longrightarrow>
      plotter (after k L fs) \<noteq> None \<and>
      plotter (after (Suc k) L fs) \<noteq> plotter (after k L fs))"
proof -
  note fr = frame [of _ _ L "''surface_nets''", folded script_def]
  have v: "volume (after b L fs) = volume (after a L fs)"
    if "a \<le> b" "volume (after a L fs) \<noteq> None" for a b
    using that by (intro once_bound [of L LoadCT]) (simp_all add: fr init_unbound)
  have sp: "spacing (after b L fs) = spacing (after a L fs)"
    if "a \<le> b" "spacing (after a L fs) \<noteq> None" for a b
    using that by (intro once_bound [of L LoadCT]) (simp_all add: fr init_unbound)
  have ld: "\<exists>v sp. load_example_ct L = Inr (v, sp) \<and> volume (after j L fs) = Some v \<and>
         spacing (after j L fs) = Some sp"
    if "2 \<le> j" "raised (exec (take 2 (script L)) (init fs)) = None"
  proof -
    from loaded [OF that(2)] obtain v0 sp0 where l: "load_example_ct L = Inr (v0, sp0)"
      "volume (after 2 L fs) = Some v0" "spacing (after 2 L fs) = Some sp0"
      by blast
    with v [OF that(1)] sp [OF that(1)] show ?thesis
      by (intro exI [of _ v0] exI [of _ sp0]) simp
  qed
  have pl: "plotter (after k L fs) \<noteq> None \<and>
      plotter (after (Suc k) L fs) \<noteq> plotter (after k L fs)"
    if k: "12 \<le> k" "k < 18" and ok: "raised (exec (take (Suc k) (script L)) (init fs)) = None"
  proof -
    from ok have ok': "raised (exec (take k (script L)) (init fs)) = None"
      by (rule prefix_run_ok)
    from session_at [OF ok', of ] k obtain p where p: "plotter (after k L fs) = Some p"
      "length (actors p) = min (k - 12) 4" "axes p = (17 \<le> k)" "bounding_box p = (18 \<le> k)"
      by auto
    from session_at [OF ok] k obtain q where q: "plotter (after (Suc k) L fs) = Some q"
      "length (actors q) = min (Suc k - 12) 4" "axes q = (17 \<le> Suc k)"
      "bounding_box q = (18 \<le> Suc k)"
      by auto
    have "p \<noteq> q"
    proof
      assume "p = q"
      with p q have "min (k - 12) 4 = min (Suc k - 12) 4" "(17 \<le> k) = (17 \<le> Suc k)"
        "(18 \<le> k) = (18 \<le> Suc k)"
        by simp_all
      with k show False
        by (auto simp: min_def split: if_splits)
    qed
    with p q show ?thesis
      by simp
  qed
  from v sp ld pl show ?thesis
    by blast
qed

theorem volume_fixed_session_changed_witness:
  "(2::nat) \<le> 19 \<and> raised (exec (take 2 (script sample_libs)) (init Map.empty)) = None \<and>
   volume (after 2 sample_libs Map.empty) \<noteq> None \<and>
   spacing (after 2 sample_libs Map.empty) \<noteq> None \<and>
   volume (after 19 sample_libs Map.empty) = volume (after 2 sample_libs Map.empty) \<and>
   spacing (after 19 sample_libs Map.empty) = spacing (after 2 sample_libs Map.empty) \<and>
   raised (exec (take 18 (script sample_libs)) (init Map.empty)) = None \<and>
   plotter (after 13 sample_libs Map.empty) \<noteq> plotter (after 12 sample_libs Map.empty) \<and>
   plotter (after 14 sample_libs Map.empty) \<noteq> plotter (after 13 sample_libs Map.empty) \<and>
   plotter (after 15 sample_libs Map.empty) \<noteq> plotter (after 14 sample_libs Map.empty) \<and>
   plotter (after 16 sample_libs Map.empty) \<noteq> plotter (after 15 sample_libs Map.empty) \<and>
   plotter (after 17 sample_libs Map.empty) \<noteq> plotter (after 16 sample_libs Map.empty) \<and>
   plotter (after 18 sample_libs Map.empty) \<noteq> plotter (after 17 sample_libs Map.empty)"
proof -
  have le: "(2::nat) \<le> 19"
    by simp
  have ok: "raised (exec (take 2 (script sample_libs)) (init Map.empty)) = None"
    "raised (exec (take (Suc 12) (script sample_libs)) (init Map.empty)) = None"
    "raised (exec (take (Suc 13) (script sample_libs)) (init Map.empty)) = None"
    "raised (exec (take (Suc 14) (script sample_libs)) (init Map.empty)) = None"
    "raised (exec (take (Suc 15) (script sample_libs)) (init Map.empty)) = None"
    "raised (exec (take (Suc 16) (script sample_libs)) (init Map.empty)) = None"
    "raised (exec (take (Suc 17) (script sample_libs)) (init Map.empty)) = None"
    by (simp_all add: run_defs sample_libs_def)
  have bound: "volume (after 2 sample_libs Map.empty) \<noteq> None"
    "spacing (after 2 sample_libs Map.empty) \<noteq> None"
    by (simp_all add: after_def run_defs sample_libs_def)
  note inst = volume_fixed_session_changed [where L = sample_libs and fs = Map.empty
      and i = 2 and j = 19]
  have "volume (after 19 sample_libs Map.empty) = volume (after 2 sample_libs Map.empty)"
    "spacing (after 19 sample_libs Map.empty) = spacing (after 2 sample_libs Map.empty)"
    using inst [where k = 12] le bound by blast+
  moreover have
    "plotter (after (Suc 12) sample_libs Map.empty) \<noteq> plotter (after 12 sample_libs Map.empty)"
    "plotter (after (Suc 13) sample_libs Map.empty) \<noteq> plotter (after 13 sample_libs Map.empty)"
    "plotter (after (Suc 14) sample_libs Map.empty) \<noteq> plotter (after 14 sample_libs Map.empty)"
    "plotter (after (Suc 15) sample_libs Map.empty) \<noteq> plotter (after 15 sample_libs Map.empty)"
    "plotter (after (Suc 16) sample_libs Map.empty) \<noteq> plotter (after 16 sample_libs Map.empty)"
    "plotter (after (Suc 17) sample_libs Map.empty) \<noteq> plotter (after 17 sample_libs Map.empty)"
    using inst [where k = 12] inst [where k = 13] inst [where k = 14] inst [where k = 15]
      inst [where k = 16] inst [where k = 17] ok
    by simp_all
  ultimately show ?thesis
    using le ok bound by simp
qed

text \<open>
  The session that line 102 creates is not the session after line 103: the plotter is
  written again after its creation.
\<close>

theorem plotter_changed_after_creation:
  "plotter (after 12 sample_libs Map.empty) \<noteq> None \<and>
   plotter (after 13 sample_libs Map.empty) \<noteq> plotter (after 12 sample_libs Map.empty)"
  by (simp add: after_def run_defs sample_libs_def)

subsection \<open>The device of the renderer\<close>

lemma setup_ok:
  "exec (setup_cell L) (init fs) = (tr, s, None) \<longleftrightarrow>
    (\<exists>v sp r r'. load_example_ct L = Inr (v, sp) \<and> DRR L v sp 510 200 2 = Inr r \<and>
       to L r (dev L) = Inr r' \<and> tr = labels (setup_cell L) \<and>
       s = (init fs)\<lparr>device := Some (dev L), volume := Some v, spacing := Some sp,
             bxbybz := Some (isocenter (shape v) sp), focal_len := Some 1020,
             drr := Some r'\<rparr>)"
  by (auto simp add: setup_cell_def labels_def exec_Cons_ok exec_Nil_ok stmt_ok init_def
       simp del: exec.simps split_paired_Ex)

lemma trace_unchanged:
  assumes "\<And>ev c. (ev, c) \<in> set P \<Longrightarrow> ev \<notin> W \<Longrightarrow> preserves f c"
    and "set (trace (exec P s)) \<inter> W = {}"
  shows "f (final (exec P s)) = f s"
  using assms
proof (induction P arbitrary: s)
  case Nil
  show ?case by (simp add: final_def)
next
  case (Cons a P)
  obtain ev c where a: "a = (ev, c)" by (cases a)
  show ?case
  proof (cases "c s")
    case (Inl e)
    then show ?thesis by (simp add: a final_def)
  next
    case (Inr s1)
    obtain tr1 s2 r where E: "exec P s1 = (tr1, s2, r)"
      by (cases "exec P s1")
    from Cons.prems(2) Inr E have ev: "ev \<notin> W" and rest: "set (trace (exec P s1)) \<inter> W = {}"
      by (auto simp: a trace_def)
    have "preserves f c"
      using Cons.prems(1) [of ev c] ev by (simp add: a)
    with Inr have s1: "f s1 = f s"
      by (simp add: preserves_def)
    have "\<And>ev c. (ev, c) \<in> set P \<Longrightarrow> ev \<notin> W \<Longrightarrow> preserves f c"
      using Cons.prems(1) by auto
    then have "f (final (exec P s1)) = f s1"
      using rest by (rule Cons.IH)
    with s1 Inr E show ?thesis
      by (simp add: a final_def)
  qed
qed

lemma take_script:
  "6 \<le> k \<Longrightarrow> take k (script_with_backend L method) =
     setup_cell L @ take (k - 6) (scene_cell L method)"
proof -
  assume "6 \<le> k"
  moreover have "length (setup_cell L) = 6"
    by (simp add: setup_cell_def)
  ultimately show ?thesis
    by (simp add: script_with_backend_def)
qed

lemma labels_scene_cell:
  "labels (scene_cell L method) =
     [DrrToMesh, Rotations, Translations, Convert, ImgToMesh, NewPlotter, AddMesh, AddMesh,
      AddMesh, AddMesh, AddAxes, AddBoundingBox, ExportHtml]"
  by (simp add: labels_def scene_cell_def)

lemma trace_take_subset:
  "set (trace (exec (take k P) s)) \<subseteq> set (labels P)"
proof -
  have "set (trace (exec (take k P) s)) \<subseteq> set (labels (take k P))"
    using trace_prefix [of "take k P" s] by (rule set_mono_prefix)
  also have "\<dots> \<subseteq> set (labels P)"
    by (auto simp: labels_def dest: in_set_takeD)
  finally show ?thesis .
qed

text \<open>
  C6. Once the setup cell (the first six statements) has run, the renderer has been
  created and moved to the device that the setup selected, once. At every later point of the run the variable \<^verbatim>\<open>device\<close>
  and the renderer are the same as at the end of the setup, and the statements run after
  the setup contain neither a device selection nor a placement of the renderer: the trace
  is the six statements of the setup (the selection of line 73, repeated on line 81, and
  the construction and placement of line 82) followed by statements that do neither.
\<close>

theorem device_chosen_at_setup_only:
  assumes "raised (exec (setup_cell L) (init fs)) = None" and "6 \<le> k"
  shows "device (after k L fs) = Some (dev L) \<and>
    drr (after k L fs) = drr (after 6 L fs) \<and>
    (\<exists>r r'. to L r (dev L) = Inr r' \<and> drr (after k L fs) = Some r') \<and>
    (\<exists>tr'. trace (exec (take k (script L)) (init fs)) =
        [SelectDevice, LoadCT, Isocenter, FocalLen, SelectDevice, MakeDRR] @ tr' \<and>
        SelectDevice \<notin> set tr' \<and> MakeDRR \<notin> set tr') \<and>
    count_list (trace (exec (take k (script L)) (init fs))) MakeDRR = 1"
proof -
  let ?scene = "scene_cell L ''surface_nets''"
  obtain tr0 s0 where E0: "exec (setup_cell L) (init fs) = (tr0, s0, None)"
    using assms(1) by (cases "exec (setup_cell L) (init fs)") (auto simp: raised_def)
  then obtain r r' where placed: "to L r (dev L) = Inr r'"
    and tr0: "tr0 = labels (setup_cell L)"
    and s0: "device s0 = Some (dev L)" "drr s0 = Some r'"
    by (auto simp: setup_ok)
  have run: "exec (take n (script L)) (init fs) =
      (case exec (take (n - 6) ?scene) s0 of (tr2, s2, r) \<Rightarrow> (tr0 @ tr2, s2, r))"
    if "6 \<le> n" for n
    using that E0 by (simp add: script_def take_script exec_append)
  have fr: "preserves device c \<and> preserves drr c"
    if "(ev, c) \<in> set (take n ?scene)" for ev c n
  proof -
    from that have m: "(ev, c) \<in> set ?scene"
      by (rule in_set_takeD)
    then have "ev \<in> set (labels ?scene)"
      by (rule label_of_member)
    then have "ev \<noteq> SelectDevice" "ev \<noteq> MakeDRR"
      by (auto simp: labels_scene_cell)
    moreover from m have "(ev, c) \<in> set (script_with_backend L ''surface_nets'')"
      by (simp add: script_with_backend_def)
    ultimately show ?thesis
      by (simp add: frame)
  qed
  have same: "device (final (exec (take n ?scene) s0)) = device s0 \<and>
      drr (final (exec (take n ?scene) s0)) = drr s0" for n
    using fr [of _ _ n] by (simp add: exec_preserves)
  have st: "device (after n L fs) = Some (dev L) \<and> drr (after n L fs) = Some r'"
    if "6 \<le> n" for n
    using run [OF that] same [of "n - 6"] s0
    by (auto simp: after_def final_def split: prod.splits)
  obtain tr2 s2 r2 where E2: "exec (take (k - 6) ?scene) s0 = (tr2, s2, r2)"
    by (cases "exec (take (k - 6) ?scene) s0")
  have "set tr2 \<subseteq> set (labels ?scene)"
    using trace_take_subset [of "k - 6" ?scene s0] E2 by (simp add: trace_def)
  then have "SelectDevice \<notin> set tr2" "MakeDRR \<notin> set tr2"
    by (auto simp: labels_scene_cell)
  moreover have "trace (exec (take k (script L)) (init fs)) = tr0 @ tr2"
    using run [OF assms(2)] E2 by (simp add: trace_def)
  ultimately show ?thesis
    using st [OF assms(2)] st [of 6] placed tr0
    by (auto simp: labels_def setup_cell_def count_list_0_iff)
qed

theorem device_chosen_at_setup_only_witness:
  "raised (exec (setup_cell sample_libs) (init Map.empty)) = None \<and> (6::nat) \<le> 19 \<and>
   device (after 19 sample_libs Map.empty) = Some (dev sample_libs) \<and>
   drr (after 19 sample_libs Map.empty) = drr (after 6 sample_libs Map.empty)"
proof -
  have ok: "raised (exec (setup_cell sample_libs) (init Map.empty)) = None"
    by (simp add: run_defs sample_libs_def)
  have le: "(6::nat) \<le> 19"
    by simp
  from device_chosen_at_setup_only [OF ok le] ok le show ?thesis
    by blast
qed


subsection \<open>The exported file\<close>

lemma export_is_last:
  assumes "prefix tr (labels (script_with_backend L method))" "ExportHtml \<in> set tr"
  shows "tr = labels (script_with_backend L method)"
  using assms unfolding labels_script
  by (auto simp: prefix_Cons)

lemma trace_take_prefix: "prefix (trace (exec (take k P) s)) (labels P)"
proof -
  have "prefix (labels (take k P)) (labels P)"
    by (simp add: labels_def take_map [symmetric] take_is_prefix)
  with trace_prefix [of "take k P" s] show ?thesis
    by (rule prefix_order.trans)
qed

lemma full_trace:
  assumes "trace (exec (take k P) s) = labels P"
  shows "exec (take k P) s = exec P s \<and> raised (exec P s) = None"
proof -
  have "length (trace (exec (take k P) s)) \<le> length (take k P)"
    using trace_prefix [of "take k P" s] by (auto dest: prefix_length_le simp: labels_def)
  with assms have "length P \<le> k"
    by (simp add: labels_def)
  then have eq: "take k P = P"
    by simp
  have "raised (exec P s) = None"
  proof (rule ccontr)
    assume "raised (exec P s) \<noteq> None"
    then have "length (trace (exec P s)) < length P"
      by (rule trace_raised)
    with assms eq show False
      by (simp add: labels_def)
  qed
  with eq show ?thesis
    by simp
qed

lemma script_done:
  assumes "raised (exec (script_with_backend L method) (init fs)) = None"
  obtains v sp r m p c d t pr h where
    "load_example_ct L = Inr (v, sp)"
    "drr_to_mesh L r method 1150 False = Inr m"
    "img_to_mesh L r p = Inr (c, d, t, pr)"
    "write_html L \<lparr>actors = scene m c d t pr, axes = True, bounding_box = True\<rparr> = Inr h"
    "final (exec (script_with_backend L method) (init fs)) =
       (init fs)\<lparr>device := Some (dev L), volume := Some v, spacing := Some sp,
          bxbybz := Some (isocenter (shape v) sp), focal_len := Some 1020,
          drr := Some r, ct := Some m,
          rotations := Some \<lparr>row = (pi, 0, pi / 2), on_device = dev L\<rparr>,
          translations' := Some \<lparr>row = camera_translation (shape v) sp, on_device = dev L\<rparr>,
          pose := Some p, camera := Some c, detector := Some d, texture := Some t,
          principal_ray := Some pr,
          plotter := Some \<lparr>actors = scene m c d t pr, axes = True, bounding_box = True\<rparr>,
          files := fs(''render.html'' \<mapsto> h)\<rparr>"
proof -
  obtain tr s where E: "exec (script_with_backend L method) (init fs) = (tr, s, None)"
    using assms by (cases "exec (script_with_backend L method) (init fs)") (auto simp: raised_def)
  then show ?thesis
    unfolding script_ok
    by (auto simp: add_mesh_ok scene_def final_def E intro!: that simp del: split_paired_Ex)
qed


lemma files_unless_exported:
  assumes "ExportHtml \<notin> set (trace (exec (take k (script_with_backend L method)) s))"
  shows "files (final (exec (take k (script_with_backend L method)) s)) = files s"
proof (rule trace_unchanged [where W = "{ExportHtml}"])
  fix ev c
  assume "(ev, c) \<in> set (take k (script_with_backend L method))" "ev \<notin> {ExportHtml}"
  then show "preserves files c"
    by (auto dest!: in_set_takeD intro: frame)
qed (use assms in simp)

lemma exported_then_done:
  assumes "ExportHtml \<in> set (trace (exec (take k (script_with_backend L method)) s))"
  shows "exec (take k (script_with_backend L method)) s = exec (script_with_backend L method) s"
    and "raised (exec (script_with_backend L method) s) = None"
    and "trace (exec (script_with_backend L method) s) = labels (script_with_backend L method)"
proof -
  have "trace (exec (take k (script_with_backend L method)) s) =
      labels (script_with_backend L method)"
    using trace_take_prefix assms by (rule export_is_last)
  from full_trace [OF this] this
  show "exec (take k (script_with_backend L method)) s = exec (script_with_backend L method) s"
    and "raised (exec (script_with_backend L method) s) = None"
    and "trace (exec (script_with_backend L method) s) = labels (script_with_backend L method)"
    by simp_all
qed

text \<open>
  C2. At every point of every run of the script: if a statement has raised, the files are
  as they were before the run and no export has happened; and if an export has happened
  (or the files have changed at all), then the run is complete, the four meshes of the
  scene (the isosurface, the camera, the principal ray and the textured detector) had been
  added to the session before, and the one change to the files is \<^verbatim>\<open>render.html\<close>
  holding the serialised session.
\<close>

theorem export_after_scene_complete:
  assumes R: "R = exec (take k (script L)) (init fs)"
  shows "(raised R \<noteq> None \<longrightarrow> files (final R) = fs \<and> ExportHtml \<notin> set (trace R)) \<and>
    (files (final R) \<noteq> fs \<or> ExportHtml \<in> set (trace R) \<longrightarrow>
       trace R = labels (script L) \<and>
       (\<exists>m c d t pr h.
          ct (final R) = Some m \<and> camera (final R) = Some c \<and> detector (final R) = Some d \<and>
          texture (final R) = Some t \<and> principal_ray (final R) = Some pr \<and>
          plotter (final R) =
            Some \<lparr>actors = scene m c d t pr, axes = True, bounding_box = True\<rparr> \<and>
          write_html L \<lparr>actors = scene m c d t pr, axes = True, bounding_box = True\<rparr> = Inr h \<and>
          files (final R) = fs(''render.html'' \<mapsto> h)))"
proof -
  note R' = R [unfolded script_def]
  have unchanged: "files (final R) = fs" if "ExportHtml \<notin> set (trace R)"
    using files_unless_exported [of k L "''surface_nets''" "init fs"] that
    by (simp add: R' init_unbound)
  have whole_run: "trace R = labels (script L) \<and> raised R = None \<and> R = exec (script L) (init fs)"
    if "ExportHtml \<in> set (trace R)"
    using exported_then_done [of k L "''surface_nets''" "init fs"] that
    by (simp add: R' script_def)
  have "files (final R) = fs \<and> ExportHtml \<notin> set (trace R)" if "raised R \<noteq> None"
  proof -
    have "ExportHtml \<notin> set (trace R)"
    proof
      assume "ExportHtml \<in> set (trace R)"
      from whole_run [OF this] that show False
        by simp
    qed
    with unchanged show ?thesis
      by simp
  qed
  moreover
  have "trace R = labels (script L) \<and>
       (\<exists>m c d t pr h.
          ct (final R) = Some m \<and> camera (final R) = Some c \<and> detector (final R) = Some d \<and>
          texture (final R) = Some t \<and> principal_ray (final R) = Some pr \<and>
          plotter (final R) =
            Some \<lparr>actors = scene m c d t pr, axes = True, bounding_box = True\<rparr> \<and>
          write_html L \<lparr>actors = scene m c d t pr, axes = True, bounding_box = True\<rparr> = Inr h \<and>
          files (final R) = fs(''render.html'' \<mapsto> h))"
    if "files (final R) \<noteq> fs \<or> ExportHtml \<in> set (trace R)"
  proof -
    from that unchanged have "ExportHtml \<in> set (trace R)"
      by blast
    from whole_run [OF this] have tr: "trace R = labels (script L)"
      and ok: "raised (exec (script_with_backend L ''surface_nets'') (init fs)) = None"
      and whole: "R = exec (script_with_backend L ''surface_nets'') (init fs)"
      by (auto simp: script_def)
    from ok show ?thesis
    proof (rule script_done)
      fix v sp r m p c d t pr h
      assume "write_html L \<lparr>actors = scene m c d t pr, axes = True, bounding_box = True\<rparr> = Inr h"
        and "final (exec (script_with_backend L ''surface_nets'') (init fs)) =
       (init fs)\<lparr>device := Some (dev L), volume := Some v, spacing := Some sp,
          bxbybz := Some (isocenter (shape v) sp), focal_len := Some 1020,
          drr := Some r, ct := Some m,
          rotations := Some \<lparr>row = (pi, 0, pi / 2), on_device = dev L\<rparr>,
          translations' := Some \<lparr>row = camera_translation (shape v) sp, on_device = dev L\<rparr>,
          pose := Some p, camera := Some c, detector := Some d, texture := Some t,
          principal_ray := Some pr,
          plotter := Some \<lparr>actors = scene m c d t pr, axes = True, bounding_box = True\<rparr>,
          files := fs(''render.html'' \<mapsto> h)\<rparr>"
      with tr whole show ?thesis
        by simp
    qed
  qed
  ultimately show ?thesis
    by blast
qed

theorem export_after_scene_complete_witness:
  "raised (exec (take 19 (script failing_libs)) (init Map.empty)) \<noteq> None \<and>
   files (final (exec (take 19 (script failing_libs)) (init Map.empty))) = Map.empty \<and>
   ExportHtml \<in> set (trace (exec (take 19 (script sample_libs)) (init Map.empty))) \<and>
   plotter (final (exec (take 19 (script sample_libs)) (init Map.empty))) =
     Some \<lparr>actors = scene 1 2 3 0 4, axes = True, bounding_box = True\<rparr> \<and>
   files (final (exec (take 19 (script sample_libs)) (init Map.empty))) =
     [''render.html'' \<mapsto> ''xxxx'']"
proof -
  have raised: "raised (exec (take 19 (script failing_libs)) (init Map.empty)) \<noteq> None"
    by (simp add: run_defs sample_libs_def failing_libs_def)
  have exported: "ExportHtml \<in> set (trace (exec (take 19 (script sample_libs)) (init Map.empty)))"
    by (simp add: run_defs sample_libs_def)
  have vars: "ct (final (exec (take 19 (script sample_libs)) (init Map.empty))) = Some 1"
    "camera (final (exec (take 19 (script sample_libs)) (init Map.empty))) = Some 2"
    "detector (final (exec (take 19 (script sample_libs)) (init Map.empty))) = Some 3"
    "texture (final (exec (take 19 (script sample_libs)) (init Map.empty))) = Some 0"
    "principal_ray (final (exec (take 19 (script sample_libs)) (init Map.empty))) = Some 4"
    by (simp_all add: run_defs sample_libs_def)
  have html: "write_html sample_libs
      \<lparr>actors = scene 1 2 3 0 4, axes = True, bounding_box = True\<rparr> = Inr ''xxxx''"
    by (simp add: sample_libs_def scene_def)
  from export_after_scene_complete [OF refl, of 19 failing_libs Map.empty] raised
  have "files (final (exec (take 19 (script failing_libs)) (init Map.empty))) = Map.empty"
    by blast
  moreover
  from export_after_scene_complete [OF refl, of 19 sample_libs Map.empty] exported vars html
  have "plotter (final (exec (take 19 (script sample_libs)) (init Map.empty))) =
       Some \<lparr>actors = scene 1 2 3 0 4, axes = True, bounding_box = True\<rparr> \<and>
     files (final (exec (take 19 (script sample_libs)) (init Map.empty))) =
       [''render.html'' \<mapsto> ''xxxx'']"
    by auto
  ultimately show ?thesis
    using raised exported by blast
qed


lemma script_any_files:
  assumes "exec (script_with_backend L method) (init fs) = (tr, s, None)"
  shows "\<exists>h. files s = fs(''render.html'' \<mapsto> h) \<and>
    exec (script_with_backend L method) (init fs') =
      (tr, s\<lparr>files := fs'(''render.html'' \<mapsto> h)\<rparr>, None)"
  using assms unfolding script_ok
  by (auto simp: init_def simp del: split_paired_Ex)

lemma script_raises_same:
  "raised (exec (script_with_backend L method) (init fs)) = None \<longleftrightarrow>
   raised (exec (script_with_backend L method) (init fs')) = None"
proof -
  have "raised (exec (script_with_backend L method) (init b)) = None"
    if ok: "raised (exec (script_with_backend L method) (init a)) = None" for a b
  proof -
    obtain tr s where "exec (script_with_backend L method) (init a) = (tr, s, None)"
      using ok by (cases "exec (script_with_backend L method) (init a)") (auto simp: raised_def)
    from script_any_files [OF this, of b] show ?thesis
      by (auto simp: raised_def)
  qed
  then show ?thesis
    by blast
qed

subsection \<open>The name of the exported file\<close>

lemma notebook_run:
  "exec (notebook L) (init fs) =
     (case exec (script L) (init fs) of
        (tr, s, None) \<Rightarrow>
          (tr @ [ShowIFrame],
           s\<lparr>shown := Some \<lparr>src = ''render.html'', height = 500, width = 749\<rparr>\<rparr>, None)
      | (tr, s, Some e) \<Rightarrow> (tr, s, Some e))"
  by (simp add: notebook_def exec_append show_iframe_def split: prod.splits option.splits)

lemma script_trace:
  "ShowIFrame \<notin> set (trace (exec (script L) (init fs)))"
  "ExportHtml \<in> set (trace (exec (script L) (init fs))) \<longleftrightarrow>
     raised (exec (script L) (init fs)) = None"
proof -
  let ?R = "exec (script L) (init fs)"
  have "set (trace ?R) \<subseteq> set (labels (script L))"
    using trace_prefix [of "script L" "init fs"] by (rule set_mono_prefix)
  then show "ShowIFrame \<notin> set (trace ?R)"
    by (auto simp: script_def labels_script)
  show "ExportHtml \<in> set (trace ?R) \<longleftrightarrow> raised ?R = None"
  proof
    assume "ExportHtml \<in> set (trace ?R)"
    then have "ExportHtml \<in> set (trace (exec (take 19 (script_with_backend L ''surface_nets''))
        (init fs)))"
      by (simp add: script_def script_with_backend_def setup_cell_def scene_cell_def)
    from exported_then_done(2) [OF this] show "raised ?R = None"
      by (simp add: script_def)
  next
    assume "raised ?R = None"
    then have "trace ?R = labels (script L)"
      by (rule trace_ok)
    then show "ExportHtml \<in> set (trace ?R)"
      by (simp add: script_def labels_script)
  qed
qed

text \<open>
  C10. In every run of the notebook, \<^verbatim>\<open>render.html\<close> is the only file that can
  differ from the working directory as it was. When the export has run, that file holds
  the serialised session, whatever it held before and whether or not it existed; whether
  the run raises does not depend on the files present at the start. When the display cell
  has run, the frame it shows has the same name as its source, and that file exists.
\<close>

theorem export_writes_render_html:
  assumes R: "R = exec (notebook L) (init fs)"
  shows "(\<forall>name. name \<noteq> ''render.html'' \<longrightarrow> files (final R) name = fs name) \<and>
    (ExportHtml \<in> set (trace R) \<longrightarrow>
       (\<exists>p h. plotter (final R) = Some p \<and> write_html L p = Inr h \<and>
          files (final R) = fs(''render.html'' \<mapsto> h))) \<and>
    (ExportHtml \<notin> set (trace R) \<longrightarrow> files (final R) = fs) \<and>
    (ShowIFrame \<in> set (trace R) \<longrightarrow>
       (\<exists>fr. shown (final R) = Some fr \<and> src fr = ''render.html'' \<and>
          files (final R) (src fr) \<noteq> None)) \<and>
    (raised R = None \<longleftrightarrow> raised (exec (notebook L) (init fs')) = None)"
proof (cases "raised (exec (script L) (init fs)) = None")
  case True
  then have ok: "raised (exec (script_with_backend L ''surface_nets'') (init fs)) = None"
    by (simp add: script_def)
  from True have ok': "raised (exec (script L) (init fs')) = None"
    using script_raises_same [of L "''surface_nets''" fs fs'] by (simp add: script_def)
  obtain tr s where E: "exec (script L) (init fs) = (tr, s, None)"
    using True by (cases "exec (script L) (init fs)") (auto simp: raised_def)
  obtain tr' s' where E': "exec (script L) (init fs') = (tr', s', None)"
    using ok' by (cases "exec (script L) (init fs')") (auto simp: raised_def)
  from ok show ?thesis
  proof (rule script_done)
    fix v sp r m p c d t pr h
    assume "write_html L \<lparr>actors = scene m c d t pr, axes = True, bounding_box = True\<rparr> = Inr h"
      and "final (exec (script_with_backend L ''surface_nets'') (init fs)) =
       (init fs)\<lparr>device := Some (dev L), volume := Some v, spacing := Some sp,
          bxbybz := Some (isocenter (shape v) sp), focal_len := Some 1020,
          drr := Some r, ct := Some m,
          rotations := Some \<lparr>row = (pi, 0, pi / 2), on_device = dev L\<rparr>,
          translations' := Some \<lparr>row = camera_translation (shape v) sp, on_device = dev L\<rparr>,
          pose := Some p, camera := Some c, detector := Some d, texture := Some t,
          principal_ray := Some pr,
          plotter := Some \<lparr>actors = scene m c d t pr, axes = True, bounding_box = True\<rparr>,
          files := fs(''render.html'' \<mapsto> h)\<rparr>"
    moreover from True E have "ExportHtml \<in> set tr"
      using script_trace(2) [of L fs] by (simp add: trace_def)
    ultimately show ?thesis
      using E E' by (simp add: R notebook_run script_def final_def raised_def trace_def)
  qed
next
  case False
  then have ok': "raised (exec (script L) (init fs')) \<noteq> None"
    using script_raises_same [of L "''surface_nets''" fs fs'] by (simp add: script_def)
  obtain tr s e where E: "exec (script L) (init fs) = (tr, s, Some e)"
    using False by (cases "exec (script L) (init fs)") (auto simp: raised_def)
  obtain tr' s' e' where E': "exec (script L) (init fs') = (tr', s', Some e')"
    using ok' by (cases "exec (script L) (init fs')") (auto simp: raised_def)
  from False have no: "ExportHtml \<notin> set (trace (exec (script L) (init fs)))"
    by (simp add: script_trace)
  then have "ExportHtml \<notin> set (trace (exec (take 19 (script_with_backend L ''surface_nets''))
        (init fs)))"
    by (simp add: script_def script_with_backend_def setup_cell_def scene_cell_def)
  from files_unless_exported [OF this] have "files s = fs"
    using E by (simp add: script_def script_with_backend_def setup_cell_def scene_cell_def
        final_def init_unbound)
  with no script_trace(1) [of L fs] E E' show ?thesis
    by (simp add: R notebook_run final_def raised_def trace_def)
qed

theorem export_writes_render_html_witness:
  "ExportHtml \<in> set (trace (exec (notebook sample_libs) (init [''render.html'' \<mapsto> ''old''])))
   \<and> ShowIFrame \<in> set (trace (exec (notebook sample_libs) (init [''render.html'' \<mapsto> ''old''])))
   \<and> files (final (exec (notebook sample_libs) (init [''render.html'' \<mapsto> ''old''])))
       = [''render.html'' \<mapsto> ''xxxx'']
   \<and> ExportHtml \<notin> set (trace (exec (notebook failing_libs) (init [''a.txt'' \<mapsto> ''t''])))
   \<and> files (final (exec (notebook failing_libs) (init [''a.txt'' \<mapsto> ''t''])))
       = [''a.txt'' \<mapsto> ''t'']"
proof -
  let ?R = "exec (notebook sample_libs) (init [''render.html'' \<mapsto> ''old''])"
  let ?F = "exec (notebook failing_libs) (init [''a.txt'' \<mapsto> ''t''])"
  have tr: "ExportHtml \<in> set (trace ?R)" "ShowIFrame \<in> set (trace ?R)"
    "ExportHtml \<notin> set (trace ?F)"
    by (simp_all add: notebook_def run_defs sample_libs_def failing_libs_def)
  have p: "plotter (final ?R) =
      Some \<lparr>actors = scene 1 2 3 0 4, axes = True, bounding_box = True\<rparr>"
    by (simp add: notebook_def run_defs sample_libs_def scene_def)
  have html: "write_html sample_libs
      \<lparr>actors = scene 1 2 3 0 4, axes = True, bounding_box = True\<rparr> = Inr ''xxxx''"
    by (simp add: sample_libs_def scene_def)
  from export_writes_render_html [OF refl, of sample_libs "[''render.html'' \<mapsto> ''old'']"]
    tr p html
  have "files (final ?R) = [''render.html'' \<mapsto> ''xxxx'']"
    by auto
  moreover
  from export_writes_render_html [OF refl, of failing_libs "[''a.txt'' \<mapsto> ''t'']"] tr
  have "files (final ?F) = [''a.txt'' \<mapsto> ''t'']"
    by blast
  ultimately show ?thesis
    using tr by blast
qed


subsection \<open>An unsupported backend\<close>

lemma extract_mesh_unsupported:
  assumes "method \<notin> set supported_backends"
  shows "exec (scene_cell L method) s =
     ([], s, Some (case drr s of None \<Rightarrow> NameError ''drr'' | Some r \<Rightarrow> ValueError method))"
  using assms
  by (simp add: scene_cell_def extract_mesh_def drr_to_mesh_def monad_defs split: option.splits)

lemma setup_frame:
  "plotter (final (exec (setup_cell L) (init fs))) = None"
  "camera (final (exec (setup_cell L) (init fs))) = None"
  "files (final (exec (setup_cell L) (init fs))) = fs"
proof -
  have m: "(ev, c) \<in> set (script_with_backend L ''surface_nets'') \<and>
      ev \<notin> {NewPlotter, AddMesh, AddAxes, AddBoundingBox} \<and> ev \<noteq> ImgToMesh \<and> ev \<noteq> ExportHtml"
    if "(ev, c) \<in> set (setup_cell L)" for ev c
    using that by (auto simp: script_with_backend_def setup_cell_def)
  show "plotter (final (exec (setup_cell L) (init fs))) = None"
  proof -
    have "preserves plotter c" if "(ev, c) \<in> set (setup_cell L)" for ev c
      using m [OF that] by (auto intro: frame)
    from exec_preserves [of "setup_cell L" plotter "init fs", OF this] show ?thesis
      by (simp add: init_unbound)
  qed
  show "camera (final (exec (setup_cell L) (init fs))) = None"
  proof -
    have "preserves camera c" if "(ev, c) \<in> set (setup_cell L)" for ev c
      using m [OF that] by (auto intro: frame)
    from exec_preserves [of "setup_cell L" camera "init fs", OF this] show ?thesis
      by (simp add: init_unbound)
  qed
  show "files (final (exec (setup_cell L) (init fs))) = fs"
  proof -
    have "preserves files c" if "(ev, c) \<in> set (setup_cell L)" for ev c
      using m [OF that] by (auto intro: frame)
    from exec_preserves [of "setup_cell L" files "init fs", OF this] show ?thesis
      by (simp add: init_unbound)
  qed
qed

text \<open>
  C1. With a backend name that is not supported, \<^verbatim>\<open>drr_to_mesh\<close> raises; the run of the
  script then raises too, at that call when the setup has gone through, and in any case
  before the projection is rendered and before the scene is built: only statements of the
  setup have run, no plotting session exists, no camera mesh exists and no file has
  changed. The name that the script passes, \<^verbatim>\<open>surface_nets\<close>, is supported, so for it the
  call is the isosurface extraction itself.
\<close>

theorem unsupported_backend_fails_first:
  assumes R: "R = exec (script_with_backend L method) (init fs)"
  shows "(method \<notin> set supported_backends \<longrightarrow>
      drr_to_mesh L r method th vb = Inl (ValueError method) \<and>
      raised R \<noteq> None \<and>
      (raised (exec (setup_cell L) (init fs)) = None \<longrightarrow>
         raised R = Some (ValueError method)) \<and>
      set (trace R) \<subseteq> {SelectDevice, LoadCT, Isocenter, FocalLen, MakeDRR} \<and>
      plotter (final R) = None \<and> camera (final R) = None \<and> files (final R) = fs) \<and>
    ''surface_nets'' \<in> set supported_backends \<and>
    script L = script_with_backend L ''surface_nets'' \<and>
    drr_to_mesh L r ''surface_nets'' th vb = isosurface L r ''surface_nets'' th vb"
proof -
  obtain tr0 s0 r0 where E0: "exec (setup_cell L) (init fs) = (tr0, s0, r0)"
    by (cases "exec (setup_cell L) (init fs)")
  have tr0: "set tr0 \<subseteq> {SelectDevice, LoadCT, Isocenter, FocalLen, MakeDRR}"
    using trace_prefix [of "setup_cell L" "init fs", THEN set_mono_prefix] E0
    by (auto simp: trace_def labels_def setup_cell_def)
  have s0: "plotter s0 = None" "camera s0 = None" "files s0 = fs"
    using setup_frame [of L fs] E0 by (simp_all add: final_def)
  have bound: "drr s0 \<noteq> None" if "r0 = None"
    using E0 that by (auto simp: setup_ok)
  have "raised R \<noteq> None \<and>
      (raised (exec (setup_cell L) (init fs)) = None \<longrightarrow>
         raised R = Some (ValueError method)) \<and>
      set (trace R) \<subseteq> {SelectDevice, LoadCT, Isocenter, FocalLen, MakeDRR} \<and>
      plotter (final R) = None \<and> camera (final R) = None \<and> files (final R) = fs"
    if un: "method \<notin> set supported_backends"
  proof (cases r0)
    case None
    with bound obtain r' where "drr s0 = Some r'"
      by auto
    with None E0 tr0 s0 show ?thesis
      by (simp add: R script_with_backend_def exec_append extract_mesh_unsupported [OF un]
          raised_def trace_def final_def)
  next
    case (Some e)
    with E0 tr0 s0 show ?thesis
      by (simp add: R script_with_backend_def exec_append raised_def trace_def final_def)
  qed
  then show ?thesis
    by (simp add: drr_to_mesh_def supported_backends_def script_def)
qed

theorem unsupported_backend_fails_first_witness:
  "''flying_edges'' \<notin> set supported_backends \<and>
   raised (exec (setup_cell sample_libs) (init Map.empty)) = None \<and>
   raised (exec (script_with_backend sample_libs ''flying_edges'') (init Map.empty)) =
     Some (ValueError ''flying_edges'') \<and>
   files (final (exec (script_with_backend sample_libs ''flying_edges'') (init Map.empty))) =
     Map.empty"
proof -
  have un: "''flying_edges'' \<notin> set supported_backends"
    by (simp add: supported_backends_def)
  have ok: "raised (exec (setup_cell sample_libs) (init Map.empty)) = None"
    by (simp add: run_defs sample_libs_def)
  from unsupported_backend_fails_first [OF refl, of "''flying_edges''" sample_libs _ _ _ Map.empty]
    un ok
  show ?thesis
    by blast
qed


subsection \<open>The four components of the projection geometry\<close>

text \<open>
  C8. For a renderer and a pose that \<^verbatim>\<open>img_to_mesh\<close> accepts, line 99 binds the four
  components of its result, in order, to \<^verbatim>\<open>camera\<close>, \<^verbatim>\<open>detector\<close>, \<^verbatim>\<open>texture\<close> and
  \<^verbatim>\<open>principal_ray\<close> and changes nothing else. In a run that raises nothing, the scene
  uses them accordingly: the first as the camera mesh drawn with edges, the fourth as the
  principal ray, the second as the detector mesh with the third as its texture.
\<close>

theorem img_to_mesh_components:
  assumes R: "R = exec (script L) (init fs)"
  shows "(drr s = Some r \<and> pose s = Some p \<and> img_to_mesh L r p = Inr (c, d, t, pr) \<longrightarrow>
      render_projection L s =
        Inr (s\<lparr>camera := Some c, detector := Some d, texture := Some t,
               principal_ray := Some pr\<rparr>)) \<and>
    (raised R = None \<longrightarrow>
      (\<exists>r p m c d t pr. drr (final R) = Some r \<and> pose (final R) = Some p \<and>
         ct (final R) = Some m \<and> img_to_mesh L r p = Inr (c, d, t, pr) \<and>
         camera (final R) = Some c \<and> detector (final R) = Some d \<and>
         texture (final R) = Some t \<and> principal_ray (final R) = Some pr \<and>
         map_option actors (plotter (final R)) =
           Some [plain m,
                 (plain c)\<lparr>a_show_edges := Some True, a_line_width := Some 1.5\<rparr>,
                 (plain pr)\<lparr>a_color := Some ''lime'', a_line_width := Some 3\<rparr>,
                 (plain d)\<lparr>a_texture := Some t\<rparr>]))"
proof -
  have "render_projection L s =
        Inr (s\<lparr>camera := Some c, detector := Some d, texture := Some t,
               principal_ray := Some pr\<rparr>)"
    if "drr s = Some r \<and> pose s = Some p \<and> img_to_mesh L r p = Inr (c, d, t, pr)"
    using that by (simp add: render_projection_ok)
  moreover
  have "\<exists>r p m c d t pr. drr (final R) = Some r \<and> pose (final R) = Some p \<and>
         ct (final R) = Some m \<and> img_to_mesh L r p = Inr (c, d, t, pr) \<and>
         camera (final R) = Some c \<and> detector (final R) = Some d \<and>
         texture (final R) = Some t \<and> principal_ray (final R) = Some pr \<and>
         map_option actors (plotter (final R)) =
           Some [plain m,
                 (plain c)\<lparr>a_show_edges := Some True, a_line_width := Some 1.5\<rparr>,
                 (plain pr)\<lparr>a_color := Some ''lime'', a_line_width := Some 3\<rparr>,
                 (plain d)\<lparr>a_texture := Some t\<rparr>]"
    if "raised R = None"
  proof -
    from that have "raised (exec (script_with_backend L ''surface_nets'') (init fs)) = None"
      by (simp add: R script_def)
    then show ?thesis
    proof (rule script_done)
      fix v sp r m p c d t pr h
      assume "img_to_mesh L r p = Inr (c, d, t, pr)"
        and "final (exec (script_with_backend L ''surface_nets'') (init fs)) =
       (init fs)\<lparr>device := Some (dev L), volume := Some v, spacing := Some sp,
          bxbybz := Some (isocenter (shape v) sp), focal_len := Some 1020,
          drr := Some r, ct := Some m,
          rotations := Some \<lparr>row = (pi, 0, pi / 2), on_device = dev L\<rparr>,
          translations' := Some \<lparr>row = camera_translation (shape v) sp, on_device = dev L\<rparr>,
          pose := Some p, camera := Some c, detector := Some d, texture := Some t,
          principal_ray := Some pr,
          plotter := Some \<lparr>actors = scene m c d t pr, axes = True, bounding_box = True\<rparr>,
          files := fs(''render.html'' \<mapsto> h)\<rparr>"
      then show ?thesis
        by (simp add: R script_def scene_def)
    qed
  qed
  ultimately show ?thesis
    by blast
qed

theorem img_to_mesh_components_witness:
  "raised (exec (script sample_libs) (init Map.empty)) = None \<and>
   img_to_mesh sample_libs 0 0 = Inr (2, 3, 0, 4) \<and>
   camera (final (exec (script sample_libs) (init Map.empty))) = Some 2 \<and>
   detector (final (exec (script sample_libs) (init Map.empty))) = Some 3 \<and>
   texture (final (exec (script sample_libs) (init Map.empty))) = Some 0 \<and>
   principal_ray (final (exec (script sample_libs) (init Map.empty))) = Some 4"
proof -
  let ?R = "exec (script sample_libs) (init Map.empty)"
  have ok: "raised ?R = None"
    by (simp add: run_defs sample_libs_def)
  have rp: "drr (final ?R) = Some 0" "pose (final ?R) = Some 0"
    by (simp_all add: run_defs sample_libs_def)
  have img: "img_to_mesh sample_libs r p = Inr (2, 3, 0, 4)" for r p
    by (simp add: sample_libs_def)
  from img_to_mesh_components [OF refl, where L = sample_libs and fs = Map.empty
      and s = "final ?R" and r = 0 and p = 0 and c = 2 and d = 3 and t = 0 and pr = 4]
    ok rp img
  show ?thesis
    by auto
qed


subsection \<open>The camera translation\<close>

lemma camera_translation_eq:
  "camera_translation (nx, ny, nz) (sx, sy, sz) =
     (real nx * sx / 2 - 340, real ny * sy / 2, real nz * sz / 2)"
  by (simp add: camera_translation_def isocenter_def)

lemma pose_inputs_same:
  assumes "preserves focal_len c" "preserves volume c" "preserves spacing c"
    "preserves bxbybz c" "preserves translations' c"
    and "c s = Inr s'" "pose_inputs_ok L s"
  shows "pose_inputs_ok L s'"
proof -
  from assms(1-6) have eqs: "focal_len s' = focal_len s" "volume s' = volume s"
    "spacing s' = spacing s" "bxbybz s' = bxbybz s" "translations' s' = translations' s"
    by (simp_all add: preserves_def)
  from assms(7) show ?thesis
    unfolding pose_inputs_ok_def eqs .
qed

lemma pose_inputs_writers:
  "load_volume L s = Inr s' \<Longrightarrow> pose_inputs_ok L s \<Longrightarrow> pose_inputs_ok L s'"
  "get_isocenter s = Inr s' \<Longrightarrow> pose_inputs_ok L s \<Longrightarrow> pose_inputs_ok L s'"
  "set_focal_len s = Inr s' \<Longrightarrow> pose_inputs_ok L s \<Longrightarrow> pose_inputs_ok L s'"
  "make_translations s = Inr s' \<Longrightarrow> pose_inputs_ok L s \<Longrightarrow> pose_inputs_ok L s'"
  by (auto simp: load_volume_ok get_isocenter_ok set_focal_len_ok make_translations_ok
        pose_inputs_ok_def camera_translation_def split: option.splits
        simp del: split_paired_Ex split_paired_All)


lemma pose_inputs_step:
  assumes m: "(ev, c) \<in> set (script_with_backend L method)"
    and run: "c s = Inr s'" and ok: "pose_inputs_ok L s"
  shows "pose_inputs_ok L s'"
proof (cases "ev \<in> {LoadCT, Isocenter, FocalLen, Translations}")
  case True
  with m have "c = load_volume L \<or> c = get_isocenter \<or> c = set_focal_len \<or>
      c = make_translations"
    by (auto simp: prog_defs)
  with run ok show ?thesis
    by (auto intro: pose_inputs_writers)
next
  case False
  with frame [OF m] have "preserves focal_len c" "preserves volume c" "preserves spacing c"
    "preserves bxbybz c" "preserves translations' c"
    by simp_all
  then show ?thesis
    using run ok by (rule pose_inputs_same)
qed

lemma pose_inputs_always: "pose_inputs_ok L (after k L fs)"
  unfolding after_def
proof (rule exec_invariant [where I = "pose_inputs_ok L"])
  fix ev c s s'
  assume "(ev, c) \<in> set (take k (script L))" "c s = Inr s'" "pose_inputs_ok L s"
  then show "pose_inputs_ok L s'"
    using pose_inputs_step [of ev c L "''surface_nets''" s s']
    by (auto simp: script_def dest: in_set_takeD)
next
  show "pose_inputs_ok L (init fs)"
    by (simp add: pose_inputs_ok_def init_unbound)
qed

text \<open>
  C9, as amended. The camera translation is not an independent input: at every point of
  every run at which \<^verbatim>\<open>translations\<close> is bound, its row is
  \<^verbatim>\<open>(bx - focal_len / 3, by, bz)\<close>, where \<^verbatim>\<open>focal_len\<close> is 1020 and
  \<^verbatim>\<open>(bx, by, bz)\<close> is the isocenter of the loaded volume, shape times spacing over two,
  axis by axis. So the translation depends on the volume through the three products of
  shape and spacing only: in exact arithmetic, two volumes give the same translation exactly
  when these products agree (and a change of shape and spacing that keeps the products
  keeps the translation).
\<close>

theorem translation_from_volume:
  "(translations' (after k L fs) = Some t \<longrightarrow>
      (\<exists>v sp. load_example_ct L = Inr (v, sp) \<and> volume (after k L fs) = Some v \<and>
         spacing (after k L fs) = Some sp \<and>
         bxbybz (after k L fs) = Some (isocenter (shape v) sp) \<and>
         focal_len (after k L fs) = Some 1020 \<and>
         row t = camera_translation (shape v) sp)) \<and>
   camera_translation (nx, ny, nz) (sx, sy, sz) =
     (real nx * sx / 2 - 1020 / 3, real ny * sy / 2, real nz * sz / 2) \<and>
   (camera_translation (nx, ny, nz) (sx, sy, sz) = camera_translation (nx', ny', nz') (sx', sy', sz')
      \<longleftrightarrow> real nx * sx = real nx' * sx' \<and> real ny * sy = real ny' * sy' \<and>
        real nz * sz = real nz' * sz')"
proof -
  have "\<exists>v sp. load_example_ct L = Inr (v, sp) \<and> volume (after k L fs) = Some v \<and>
         spacing (after k L fs) = Some sp \<and>
         bxbybz (after k L fs) = Some (isocenter (shape v) sp) \<and>
         focal_len (after k L fs) = Some 1020 \<and>
         row t = camera_translation (shape v) sp"
    if "translations' (after k L fs) = Some t"
    using pose_inputs_always [of L k fs] that
    by (auto simp: pose_inputs_ok_def split: option.splits simp del: split_paired_Ex)
  then show ?thesis
    by (auto simp: camera_translation_eq)
qed

theorem translation_from_volume_witness:
  "translations' (after 19 sample_libs Map.empty) = Some \<lparr>row = (-339, 3 / 2, 4), on_device = Cpu\<rparr>
   \<and> (\<exists>v sp. load_example_ct sample_libs = Inr (v, sp) \<and>
         (-339, 3 / 2, 4) = camera_translation (shape v) sp)
   \<and> camera_translation (2, 3, 4) (1, 1, 2) = camera_translation (1, 3, 4) (2, 1, 2)"
proof -
  have t: "translations' (after 19 sample_libs Map.empty) =
      Some \<lparr>row = (-339, 3 / 2, 4), on_device = Cpu\<rparr>"
    by (simp add: after_def run_defs sample_libs_def)
  note inst = translation_from_volume [where k = 19 and L = sample_libs and fs = Map.empty
      and t = "\<lparr>row = (-339, 3 / 2, 4), on_device = Cpu\<rparr>"
      and nx = 2 and ny = 3 and nz = 4 and sx = 1 and sy = 1 and sz = 2
      and nx' = 1 and ny' = 3 and nz' = 4 and sx' = 2 and sy' = 1 and sz' = 2]
  from inst t have "\<exists>v sp. load_example_ct sample_libs = Inr (v, sp) \<and>
         (-339, 3 / 2, 4) = camera_translation (shape v) sp"
    by fastforce
  moreover
  have "real 2 * 1 = real 1 * 2 \<and> real 3 * 1 = real 3 * 1 \<and> real 4 * 2 = real 4 * 2"
    by simp
  with inst have "camera_translation (2, 3, 4) (1, 1, 2) = camera_translation (1, 3, 4) (2, 1, 2)"
    by blast
  ultimately show ?thesis
    using t by blast
qed

text \<open>
  Halving the shape along the first axis and doubling the spacing there changes both the
  shape and the spacing of the volume, and leaves the translation as it was.
\<close>

theorem translation_same_for_other_volume:
  "map_option shape (volume (after 19 sample_libs Map.empty)) = Some (2, 3, 4) \<and>
   spacing (after 19 sample_libs Map.empty) = Some (1, 1, 2) \<and>
   map_option shape (volume (after 19 coarse_libs Map.empty)) = Some (1, 3, 4) \<and>
   spacing (after 19 coarse_libs Map.empty) = Some (2, 1, 2) \<and>
   translations' (after 19 coarse_libs Map.empty) =
     translations' (after 19 sample_libs Map.empty) \<and>
   translations' (after 19 sample_libs Map.empty) \<noteq> None"
  by (simp add: after_def run_defs sample_libs_def coarse_libs_def)

end
